theory Spec2Isabelle
  imports Main "HOL-Library.Word"
begin

unbundle bit_operations_syntax

section \<open>Machine types and constants\<close>

type_synonym u8 = "8 word"
type_synonym u16 = "16 word"
type_synonym u32 = "32 word"
type_synonym u64 = "64 word"

text \<open>Attribute type codes, \<^verbatim>\<open>enum BgpPathAttribType\<close> of bgp-path-attrib.h.\<close>

abbreviation (input) ORIGIN :: u8 where "ORIGIN \<equiv> 1"
abbreviation (input) AS_PATH :: u8 where "AS_PATH \<equiv> 2"
abbreviation (input) NEXT_HOP :: u8 where "NEXT_HOP \<equiv> 3"
abbreviation (input) AS4_PATH :: u8 where "AS4_PATH \<equiv> 17"

text \<open>Segment types, \<^verbatim>\<open>enum BgpAsPathSegmentType\<close>.\<close>

abbreviation (input) AS_SET :: u8 where "AS_SET \<equiv> 1"
abbreviation (input) AS_SEQUENCE :: u8 where "AS_SEQUENCE \<equiv> 2"

text \<open>Error codes and UPDATE subcodes, bgp-errcode.h.\<close>

abbreviation (input) E_UPDATE :: u8 where "E_UPDATE \<equiv> 3"
abbreviation (input) E_UNSPEC_UPDATE :: u8 where "E_UNSPEC_UPDATE \<equiv> 0"
abbreviation (input) E_ATTR_LIST :: u8 where "E_ATTR_LIST \<equiv> 1"
abbreviation (input) E_BAD_WELL_KNOWN :: u8 where "E_BAD_WELL_KNOWN \<equiv> 2"
abbreviation (input) E_MISS_WELL_KNOWN :: u8 where "E_MISS_WELL_KNOWN \<equiv> 3"
abbreviation (input) E_ATTR_FLAG :: u8 where "E_ATTR_FLAG \<equiv> 4"
abbreviation (input) E_ATTR_LEN :: u8 where "E_ATTR_LEN \<equiv> 5"
abbreviation (input) E_ORIGIN :: u8 where "E_ORIGIN \<equiv> 6"

text \<open>
  The header error with its subcode for a bad length, and the error code \<^verbatim>\<open>E_UNSPEC\<close>,
  which \<^verbatim>\<open>BgpUpdateMessage::parse\<close> passes as a subcode.
\<close>

abbreviation (input) E_HEADER :: u8 where "E_HEADER \<equiv> 1"
abbreviation (input) E_LENGTH :: u8 where "E_LENGTH \<equiv> 2"
abbreviation (input) E_UNSPEC :: u8 where "E_UNSPEC \<equiv> 0"

text \<open>The reserved AS number that stands for a four-octet ASN in a two-octet path.\<close>

abbreviation (input) AS_TRANS :: u32 where "AS_TRANS \<equiv> 23456"

section \<open>Path attributes and the UPDATE message\<close>

text \<open>
  \<^verbatim>\<open>class BgpAsPathSegment\<close>: the fields \<^verbatim>\<open>is_4b\<close>, \<^verbatim>\<open>type\<close> and
  \<^verbatim>\<open>value\<close> (a \<^verbatim>\<open>std::vector<uint32_t>\<close>).
\<close>

record BgpAsPathSegment =
  seg_is_4b :: bool
  seg_type :: u8
  seg_value :: "u32 list"

text \<open>
  The subclasses of \<^verbatim>\<open>BgpPathAttrib\<close> become the constructors of one datatype: the
  dynamic class of an attribute object is the constructor of its body, and a
  \<^verbatim>\<open>dynamic_cast\<close> is a case distinction on it.
\<close>

datatype attrib_body =
    Unknown "u8 list"
  | Origin u8
  | AsPath bool "BgpAsPathSegment list"
  | Nexthop u32
  | Med u32
  | LocalPref u32
  | AtomicAggregate
  | Aggregator u32 u32 bool
  | Community u32
  | As4Path "BgpAsPathSegment list"
  | As4Aggregator u32 u32

text \<open>
  \<^verbatim>\<open>class BgpPathAttrib\<close>: the four flags, the type code, the length read from the
  header, and the error the attribute recorded while it was parsed.
\<close>

record BgpPathAttrib =
  optional :: bool
  transitive :: bool
  partial :: bool
  extended :: bool
  type_code :: u8
  value_len :: u16
  err_code :: u8
  err_subcode :: u8
  err_buf :: "u8 list"
  body :: attrib_body

text \<open>\<^verbatim>\<open>class Route\<close>: a prefix length and the prefix, named after their accessors.\<close>

record Route =
  getLength :: u8
  getPrefix :: u32

text \<open>
  \<^verbatim>\<open>class BgpUpdateMessage\<close>. The attribute list is a vector of shared pointers; every
  attribute that enters it is a fresh object (\<^verbatim>\<open>clone()\<close> or \<^verbatim>\<open>new\<close>), so the list is
  a list of values. The last three fields are the error the message recorded.
\<close>

record BgpUpdateMessage =
  use_4b_asn :: bool
  withdrawn_routes :: "Route list"
  path_attribute :: "BgpPathAttrib list"
  nlri :: "Route list"
  msg_err_code :: u8
  msg_err_subcode :: u8
  msg_err_data :: "u8 list"

text \<open>
  Modelled from the spec: \<^verbatim>\<open>BgpMessage::setError\<close> is not among the sources; an error is
  the triple (code, subcode, data), and recording one stores the triple in the message.
\<close>

definition setError :: "u8 \<Rightarrow> u8 \<Rightarrow> u8 list \<Rightarrow> BgpUpdateMessage \<Rightarrow> BgpUpdateMessage" where
  "setError err suberr data m = m\<lparr>msg_err_code := err, msg_err_subcode := suberr, msg_err_data := data\<rparr>"

text \<open>The two exceptions the attribute accessors can raise.\<close>

datatype exn = NoSuchAttribute | BadCast

subsection \<open>Looking up, adding and dropping attributes\<close>

text \<open>\<^verbatim>\<open>hasAttrib\<close>: the loop over the attribute list, true at the first match.\<close>

primrec hasAttrib_list :: "BgpPathAttrib list \<Rightarrow> u8 \<Rightarrow> bool" where
  "hasAttrib_list [] t = False"
| "hasAttrib_list (a # as) t = (if type_code a = t then True else hasAttrib_list as t)"

definition hasAttrib :: "BgpUpdateMessage \<Rightarrow> u8 \<Rightarrow> bool" where
  "hasAttrib m t = hasAttrib_list (path_attribute m) t"

text \<open>\<^verbatim>\<open>getAttrib\<close>: the first attribute of the type, or the exception.\<close>

primrec getAttrib_list :: "BgpPathAttrib list \<Rightarrow> u8 \<Rightarrow> exn + BgpPathAttrib" where
  "getAttrib_list [] t = Inl NoSuchAttribute"
| "getAttrib_list (a # as) t = (if type_code a = t then Inr a else getAttrib_list as t)"

definition getAttrib :: "BgpUpdateMessage \<Rightarrow> u8 \<Rightarrow> exn + BgpPathAttrib" where
  "getAttrib m t = getAttrib_list (path_attribute m) t"

text \<open>
  \<^verbatim>\<open>addAttrib\<close>: refuses a type code the message already has, otherwise appends a clone
  (a copy of the value).
\<close>

definition addAttrib :: "BgpUpdateMessage \<Rightarrow> BgpPathAttrib \<Rightarrow> bool \<times> BgpUpdateMessage" where
  "addAttrib m attrib =
     (if hasAttrib m (type_code attrib) then (False, m)
      else (True, m\<lparr>path_attribute := path_attribute m @ [attrib]\<rparr>))"

text \<open>\<^verbatim>\<open>dropAttrib\<close>: erases the first attribute of the type and stops.\<close>

primrec dropAttrib_list :: "BgpPathAttrib list \<Rightarrow> u8 \<Rightarrow> bool \<times> BgpPathAttrib list" where
  "dropAttrib_list [] t = (False, [])"
| "dropAttrib_list (a # as) t =
     (if type_code a = t then (True, as)
      else (fst (dropAttrib_list as t), a # snd (dropAttrib_list as t)))"

definition dropAttrib :: "BgpUpdateMessage \<Rightarrow> u8 \<Rightarrow> bool \<times> BgpUpdateMessage" where
  "dropAttrib m t =
     (fst (dropAttrib_list (path_attribute m) t),
      m\<lparr>path_attribute := snd (dropAttrib_list (path_attribute m) t)\<rparr>)"

text \<open>\<^verbatim>\<open>updateAttribute\<close>: drop, then add; the result is the one of \<^verbatim>\<open>addAttrib\<close>.\<close>

definition updateAttribute :: "BgpUpdateMessage \<Rightarrow> BgpPathAttrib \<Rightarrow> bool \<times> BgpUpdateMessage" where
  "updateAttribute m attrib = addAttrib (snd (dropAttrib m (type_code attrib))) attrib"

subsection \<open>validateAttribs\<close>

text \<open>
  The loop of \<^verbatim>\<open>validateAttribs\<close> with its four locals. \<^verbatim>\<open>None\<close> is the early return at
  a set bit of \<^verbatim>\<open>typecode_bitsmap\<close>. The bitmap is a \<^verbatim>\<open>uint32_t\<close>; the update
  \<^verbatim>\<open>typecode_bitsmap &= ~(1UL << type_code)\<close> is computed in 64 bits and truncated.
\<close>

fun validateAttribs_loop ::
  "BgpPathAttrib list \<Rightarrow> bool \<Rightarrow> bool \<Rightarrow> bool \<Rightarrow> u32 \<Rightarrow> (bool \<times> bool \<times> bool) option" where
  "validateAttribs_loop [] has_origin has_nexthop has_as_path typecode_bitsmap =
     Some (has_origin, has_nexthop, has_as_path)"
| "validateAttribs_loop (a # as) has_origin has_nexthop has_as_path typecode_bitsmap =
     (let tc = type_code a;
          has_as_path' = (has_as_path \<or> tc = AS_PATH);
          has_nexthop' = (has_nexthop \<or> (tc \<noteq> AS_PATH \<and> tc = NEXT_HOP));
          has_origin' = (has_origin \<or> (tc \<noteq> AS_PATH \<and> tc \<noteq> NEXT_HOP \<and> tc = ORIGIN))
      in if drop_bit (unat tc) typecode_bitsmap AND 1 \<noteq> 0 then None
         else validateAttribs_loop as has_origin' has_nexthop' has_as_path'
                (ucast ((ucast typecode_bitsmap :: u64) AND NOT (push_bit (unat tc) 1))))"

definition validateAttribs :: "BgpUpdateMessage \<Rightarrow> bool \<times> BgpUpdateMessage" where
  "validateAttribs m =
     (case validateAttribs_loop (path_attribute m) False False False 0 of
        None \<Rightarrow> (False, setError E_UPDATE E_ATTR_LIST [] m)
      | Some (has_origin, has_nexthop, has_as_path) \<Rightarrow>
          if \<not> (has_as_path \<and> has_nexthop \<and> has_origin)
          then (False, setError E_UPDATE E_MISS_WELL_KNOWN [] m)
          else (True, m))"

subsection \<open>restoreAsPath\<close>

text \<open>
  The loops of \<^verbatim>\<open>restoreAsPath\<close> read each ASN of a two-octet segment into a
  \<^verbatim>\<open>uint16_t\<close> loop variable and widen it again.
\<close>

definition asn16 :: "u32 \<Rightarrow> u32" where
  "asn16 v = ucast (ucast v :: u16)"

text \<open>
  Without an AS4_PATH every segment is copied into a four-octet segment; \<^verbatim>\<open>None\<close> is the
  \<^verbatim>\<open>return false\<close> at a segment that is already marked four-octet.
\<close>

fun widen_segs :: "BgpAsPathSegment list \<Rightarrow> BgpAsPathSegment list option" where
  "widen_segs [] = Some []"
| "widen_segs (seg2 # segs) =
     (if seg_is_4b seg2 then None
      else case widen_segs segs of
             None \<Rightarrow> None
           | Some new_segs \<Rightarrow>
               Some (\<lparr>seg_is_4b = True, seg_type = seg_type seg2,
                      seg_value = map asn16 (seg_value seg2)\<rparr> # new_segs))"

text \<open>
  \<^verbatim>\<open>full_as_path\<close>: the values of the AS_SEQUENCE segments of the AS4_PATH, in order;
  \<^verbatim>\<open>None\<close> is the \<^verbatim>\<open>return false\<close> at a two-octet segment.
\<close>

fun collect_as4 :: "BgpAsPathSegment list \<Rightarrow> u32 list option" where
  "collect_as4 [] = Some []"
| "collect_as4 (seg4 # segs) =
     (if \<not> seg_is_4b seg4 then None
      else case collect_as4 segs of
             None \<Rightarrow> None
           | Some full \<Rightarrow>
               Some ((if seg_type seg4 = AS_SEQUENCE then seg_value seg4 else []) @ full))"

text \<open>
  The loop that moves \<^verbatim>\<open>iter_4b\<close> to the first ASN above \<^verbatim>\<open>0xffff\<close> (or to the end):
  the number of steps it takes. It sets \<^verbatim>\<open>has_4b\<close> as soon as the list has an element.
\<close>

primrec iter_4b_steps :: "u32 list \<Rightarrow> nat" where
  "iter_4b_steps [] = 0"
| "iter_4b_steps (a # as) = (if a > 0xffff then 0 else Suc (iter_4b_steps as))"

text \<open>
  The inner loop over the ASNs of one segment. Iterators into \<^verbatim>\<open>full_as_path\<close> are
  indices, \<^verbatim>\<open>full_as_path.end()\<close> is its length.
\<close>

fun restore_asns :: "u32 list \<Rightarrow> bool \<Rightarrow> nat \<Rightarrow> bool \<Rightarrow> u32 list \<Rightarrow> u32 list" where
  "restore_asns full_as_path has_4b local_iter incr_iter [] = []"
| "restore_asns full_as_path has_4b local_iter incr_iter (v # vs) =
     (let new_asn = asn16 v in
      if has_4b \<and> local_iter \<noteq> length full_as_path then
        (let incr_iter' = (incr_iter \<or> new_asn = AS_TRANS);
             new_asn' = (if new_asn = AS_TRANS then full_as_path ! local_iter else new_asn);
             local_iter' = (if incr_iter' then local_iter + 1 else local_iter)
         in new_asn' # restore_asns full_as_path has_4b local_iter' incr_iter' vs)
      else new_asn # restore_asns full_as_path has_4b local_iter incr_iter vs)"

text \<open>
  The outer loop: every segment starts again at \<^verbatim>\<open>iter_4b\<close> with \<^verbatim>\<open>incr_iter\<close> false.
\<close>

fun restore_segs :: "u32 list \<Rightarrow> bool \<Rightarrow> nat \<Rightarrow> BgpAsPathSegment list \<Rightarrow> BgpAsPathSegment list option" where
  "restore_segs full_as_path has_4b iter_4b [] = Some []"
| "restore_segs full_as_path has_4b iter_4b (seg2 # segs) =
     (if seg_is_4b seg2 then None
      else case restore_segs full_as_path has_4b iter_4b segs of
             None \<Rightarrow> None
           | Some new_segs \<Rightarrow>
               Some (\<lparr>seg_is_4b = True, seg_type = seg_type seg2,
                      seg_value = restore_asns full_as_path has_4b iter_4b False (seg_value seg2)\<rparr>
                     # new_segs))"

text \<open>
  An assignment through the reference that \<^verbatim>\<open>getAttrib\<close> returned: it changes the first
  attribute of that type code in the list.
\<close>

primrec update_first :: "u8 \<Rightarrow> (BgpPathAttrib \<Rightarrow> BgpPathAttrib) \<Rightarrow> BgpPathAttrib list \<Rightarrow> BgpPathAttrib list" where
  "update_first t f [] = []"
| "update_first t f (a # as) = (if type_code a = t then f a # as else a # update_first t f as)"

definition set_as_path :: "bool \<Rightarrow> BgpAsPathSegment list \<Rightarrow> BgpUpdateMessage \<Rightarrow> BgpUpdateMessage" where
  "set_as_path is_4b as_paths m =
     m\<lparr>path_attribute := update_first AS_PATH (\<lambda>a. a\<lparr>body := AsPath is_4b as_paths\<rparr>) (path_attribute m)\<rparr>"

text \<open>
  \<^verbatim>\<open>restoreAsPath\<close>. The result is the exception of a failed lookup or cast, or the
  returned flag with the message as the call leaves it. No error is recorded on any path
  (the diagnostics go to the log).
\<close>

definition restoreAsPath :: "BgpUpdateMessage \<Rightarrow> exn + (bool \<times> BgpUpdateMessage)" where
  "restoreAsPath m =
     (if \<not> hasAttrib m AS_PATH then Inr (True, m)
      else case getAttrib m AS_PATH of
        Inl e \<Rightarrow> Inl e
      | Inr path \<Rightarrow>
         (case body path of
            AsPath is_4b as_paths \<Rightarrow>
              if is_4b then Inr (True, m)
              else if \<not> hasAttrib m AS4_PATH then
                (case widen_segs as_paths of
                   None \<Rightarrow> Inr (False, m)
                 | Some new_segs \<Rightarrow> Inr (True, set_as_path True new_segs m))
              else
                (case getAttrib m AS4_PATH of
                   Inl e \<Rightarrow> Inl e
                 | Inr as4_path \<Rightarrow>
                    (case body as4_path of
                       As4Path as4_paths \<Rightarrow>
                         (case collect_as4 as4_paths of
                            None \<Rightarrow> Inr (False, m)
                          | Some full_as_path \<Rightarrow>
                              (let m1 = snd (dropAttrib m AS4_PATH);
                                   has_4b = (full_as_path \<noteq> []);
                                   iter_4b = iter_4b_steps full_as_path
                               in case restore_segs full_as_path has_4b iter_4b as_paths of
                                    None \<Rightarrow> Inr (False, m1)
                                  | Some new_segs \<Rightarrow> Inr (True, set_as_path True new_segs m1)))
                     | _ \<Rightarrow> Inl BadCast))
          | _ \<Rightarrow> Inl BadCast))"

subsection \<open>downgradeAsPath\<close>

text \<open>\<^verbatim>\<open>uint16_t new_as = asn >= 0xffff ? 23456 : asn\<close>, pushed into a vector of \<^verbatim>\<open>uint32_t\<close>.\<close>

definition downgrade_asn :: "u32 \<Rightarrow> u32" where
  "downgrade_asn asn = ucast (if asn \<ge> 0xffff then (23456 :: u16) else ucast asn)"

text \<open>
  The loop over the four-octet segments: the new two-octet segments and the segments of
  \<^verbatim>\<open>path4\<close>; \<^verbatim>\<open>None\<close> is the \<^verbatim>\<open>return false\<close> at a two-octet segment.
\<close>

fun downgrade_segs :: "BgpAsPathSegment list \<Rightarrow> (BgpAsPathSegment list \<times> BgpAsPathSegment list) option" where
  "downgrade_segs [] = Some ([], [])"
| "downgrade_segs (seg4 # segs) =
     (if \<not> seg_is_4b seg4 then None
      else case downgrade_segs segs of
             None \<Rightarrow> None
           | Some (new_segs, as4_paths) \<Rightarrow>
               Some (\<lparr>seg_is_4b = False, seg_type = seg_type seg4,
                      seg_value = map downgrade_asn (seg_value seg4)\<rparr> # new_segs,
                     seg4 # as4_paths))"

text \<open>
  Modelled from the spec: the constructor \<^verbatim>\<open>BgpPathAttribAs4Path()\<close> is not among the
  sources. The object it builds is an AS4_PATH attribute (type code 17, optional and
  transitive) without segments and without a recorded error.
\<close>

definition BgpPathAttribAs4Path_new :: BgpPathAttrib where
  "BgpPathAttribAs4Path_new =
     \<lparr>optional = True, transitive = True, partial = False, extended = False,
      type_code = AS4_PATH, value_len = 0, err_code = 0, err_subcode = 0, err_buf = [],
      body = As4Path []\<rparr>"

definition downgradeAsPath :: "BgpUpdateMessage \<Rightarrow> exn + (bool \<times> BgpUpdateMessage)" where
  "downgradeAsPath m =
     (if \<not> hasAttrib m AS_PATH then Inr (True, m)
      else case getAttrib m AS_PATH of
        Inl e \<Rightarrow> Inl e
      | Inr path \<Rightarrow>
         (case body path of
            AsPath is_4b as_paths \<Rightarrow>
              if \<not> is_4b then Inr (True, m)
              else
                (case downgrade_segs as_paths of
                   None \<Rightarrow> Inr (False, m)
                 | Some (new_segs, as4_paths) \<Rightarrow>
                     (let path4 = BgpPathAttribAs4Path_new\<lparr>body := As4Path as4_paths\<rparr>;
                          m1 = snd (updateAttribute m path4)
                      in Inr (True, set_as_path False new_segs m1)))
          | _ \<Rightarrow> Inl BadCast))"

text \<open>One call after the other, as long as neither raises.\<close>

definition restore_then_downgrade :: "BgpUpdateMessage \<Rightarrow> exn + (bool \<times> BgpUpdateMessage)" where
  "restore_then_downgrade m =
     (case restoreAsPath m of
        Inl e \<Rightarrow> Inl e
      | Inr (ok, m1) \<Rightarrow> if ok then downgradeAsPath m1 else Inr (False, m1))"

text \<open>An attribute header with the flags of a well-known mandatory attribute.\<close>

definition well_known :: "u8 \<Rightarrow> attrib_body \<Rightarrow> BgpPathAttrib" where
  "well_known t b =
     \<lparr>optional = False, transitive = True, partial = False, extended = False,
      type_code = t, value_len = 0, err_code = 0, err_subcode = 0, err_buf = [], body = b\<rparr>"

definition empty_update :: BgpUpdateMessage where
  "empty_update =
     \<lparr>use_4b_asn = False, withdrawn_routes = [], path_attribute = [], nlri = [],
      msg_err_code = 0, msg_err_subcode = 0, msg_err_data = []\<rparr>"

section \<open>The ASN transforms in closed form\<close>

text \<open>
  The ASNs that \<^verbatim>\<open>restoreAsPath\<close> collects from an AS4_PATH: the values of its AS_SEQUENCE
  segments, in order.
\<close>

definition as4_sequence_asns :: "BgpAsPathSegment list \<Rightarrow> u32 list" where
  "as4_sequence_asns as4_paths =
     concat (map seg_value (filter (\<lambda>s. seg_type s = AS_SEQUENCE) as4_paths))"

text \<open>
  What the restore loop computes for one segment, without the loop: with \<open>tail\<close> the ASNs
  from the first one above \<^verbatim>\<open>0xffff\<close> on and \<open>k\<close> the position of the segment's first
  AS_TRANS, the entries before \<open>k\<close> are kept, and the entry \<open>j\<close> places after \<open>k\<close> becomes
  \<open>tail ! j\<close> when it is AS_TRANS and \<open>tail\<close> is that long.
\<close>

definition restore_asns_closed :: "u32 list \<Rightarrow> u32 list \<Rightarrow> u32 list" where
  "restore_asns_closed full vs =
     (let ws = map asn16 vs;
          tail = dropWhile (\<lambda>a. a \<le> 0xffff) full;
          k = length (takeWhile (\<lambda>w. w \<noteq> AS_TRANS) ws)
      in take k ws @
         map (\<lambda>(w, j). if w = AS_TRANS \<and> j < length tail then tail ! j else w)
             (zip (drop k ws) [0..<length ws - k]))"

definition restore_seg_closed :: "u32 list \<Rightarrow> BgpAsPathSegment \<Rightarrow> BgpAsPathSegment" where
  "restore_seg_closed full s =
     \<lparr>seg_is_4b = True, seg_type = seg_type s, seg_value = restore_asns_closed full (seg_value s)\<rparr>"

text \<open>
  The replacement in the words of the specification: one pass over all segments, in which
  every AS_TRANS takes the next ASN of the list (and stays when the list is used up).
\<close>

fun spec_restore_asns :: "u32 list \<Rightarrow> u32 list \<Rightarrow> u32 list \<times> u32 list" where
  "spec_restore_asns supply [] = ([], supply)"
| "spec_restore_asns supply (v # vs) =
     (if v = AS_TRANS then
        (case supply of
           [] \<Rightarrow> (v # fst (spec_restore_asns [] vs), [])
         | a # rest \<Rightarrow> (a # fst (spec_restore_asns rest vs), snd (spec_restore_asns rest vs)))
      else (v # fst (spec_restore_asns supply vs), snd (spec_restore_asns supply vs)))"

fun spec_restore_segs :: "u32 list \<Rightarrow> BgpAsPathSegment list \<Rightarrow> BgpAsPathSegment list" where
  "spec_restore_segs supply [] = []"
| "spec_restore_segs supply (s # segs) =
     \<lparr>seg_is_4b = True, seg_type = seg_type s, seg_value = fst (spec_restore_asns supply (seg_value s))\<rparr>
     # spec_restore_segs (snd (spec_restore_asns supply (seg_value s))) segs"

text \<open>
  The two-octet image of a four-octet segment: every ASN above \<^verbatim>\<open>0xffff\<close> becomes
  AS_TRANS. A segment is wide when it holds such an ASN.
\<close>

abbreviation (input) to_trans :: "u32 \<Rightarrow> u32" where
  "to_trans \<equiv> (\<lambda>a. if a > 0xffff then AS_TRANS else a)"

definition two_octet_seg :: "BgpAsPathSegment \<Rightarrow> BgpAsPathSegment" where
  "two_octet_seg s =
     \<lparr>seg_is_4b = False, seg_type = seg_type s,
      seg_value = map (\<lambda>a. if a > 0xffff then AS_TRANS else a) (seg_value s)\<rparr>"

definition wide_seg :: "BgpAsPathSegment \<Rightarrow> bool" where
  "wide_seg s = (\<exists>a\<in>set (seg_value s). a > 0xffff)"

section \<open>Example messages\<close>

definition seg2b :: "u8 \<Rightarrow> u32 list \<Rightarrow> BgpAsPathSegment" where
  "seg2b t vs = \<lparr>seg_is_4b = False, seg_type = t, seg_value = vs\<rparr>"

definition seg4b :: "u8 \<Rightarrow> u32 list \<Rightarrow> BgpAsPathSegment" where
  "seg4b t vs = \<lparr>seg_is_4b = True, seg_type = t, seg_value = vs\<rparr>"

definition update_with :: "BgpPathAttrib list \<Rightarrow> BgpUpdateMessage" where
  "update_with as = empty_update\<lparr>path_attribute := as\<rparr>"

definition as4_path_attr :: "BgpAsPathSegment list \<Rightarrow> BgpPathAttrib" where
  "as4_path_attr segs = BgpPathAttribAs4Path_new\<lparr>body := As4Path segs\<rparr>"

section \<open>Parsing an ORIGIN attribute\<close>

text \<open>
  \<^verbatim>\<open>BgpPathAttrib::setError\<close>: stores code and subcode, asserts that the attribute holds no
  error data yet, and copies the data. \<^verbatim>\<open>None\<close> is the failed assertion.
\<close>

definition attr_setError :: "u8 \<Rightarrow> u8 \<Rightarrow> u8 list \<Rightarrow> BgpPathAttrib \<Rightarrow> BgpPathAttrib option" where
  "attr_setError err suberr data a =
     (if err_buf a \<noteq> [] then None
      else Some (a\<lparr>err_code := err, err_subcode := suberr, err_buf := data\<rparr>))"

text \<open>
  \<^verbatim>\<open>BgpPathAttrib::parseHeader\<close>. The buffer \<open>from\<close> holds at least \<open>buffer_sz\<close> bytes. The
  result is the returned number with the attribute as the call leaves it: \<open>-1\<close> after an
  error, \<open>2\<close> otherwise. The length is read as one byte.
\<close>

definition parseHeader :: "BgpPathAttrib \<Rightarrow> u8 list \<Rightarrow> nat \<Rightarrow> (int \<times> BgpPathAttrib) option" where
  "parseHeader a from buffer_sz =
     (if buffer_sz < 3 then
        map_option (Pair (- 1)) (attr_setError E_UPDATE E_UNSPEC_UPDATE [] a)
      else
        (let flags = from ! 0;
             a1 = a\<lparr>optional := (drop_bit 7 flags AND 1 \<noteq> 0),
                    transitive := (drop_bit 6 flags AND 1 \<noteq> 0),
                    partial := (drop_bit 5 flags AND 1 \<noteq> 0),
                    extended := (drop_bit 4 flags AND 1 \<noteq> 0),
                    type_code := from ! 1,
                    value_len := ucast (from ! 2)\<rparr>
         in if unat (value_len a1) > buffer_sz - 3 then
              map_option (Pair (- 1))
                (attr_setError E_UPDATE E_UNSPEC_UPDATE [] (a1\<lparr>err_code := E_UPDATE\<rparr>))
            else Some (2, a1)))"

text \<open>
  \<^verbatim>\<open>BgpPathAttribOrigin::parse\<close>: the header, the checks of length and flags in the order
  of the source, then the value. Error data is the first four bytes of the buffer.
\<close>

definition Origin_parse :: "BgpPathAttrib \<Rightarrow> u8 list \<Rightarrow> nat \<Rightarrow> (int \<times> BgpPathAttrib) option" where
  "Origin_parse a from len =
     (case parseHeader a from len of
        None \<Rightarrow> None
      | Some (r, a1) \<Rightarrow>
          if r \<noteq> 3 then Some (- 1, a1)
          else if unat (value_len a1) < 1 then
            map_option (Pair (- 1)) (attr_setError E_UPDATE E_UNSPEC_UPDATE [] a1)
          else if value_len a1 \<noteq> 1 then
            map_option (Pair (- 1)) (attr_setError E_UPDATE E_ATTR_LEN (take 4 from) a1)
          else if optional a1 \<or> \<not> transitive a1 then
            map_option (Pair (- 1)) (attr_setError E_UPDATE E_ATTR_FLAG (take 4 from) a1)
          else
            (let a2 = a1\<lparr>body := Origin (from ! 3)\<rparr>
             in if from ! 3 > 2 then
                  map_option (Pair (- 1)) (attr_setError E_UPDATE E_ORIGIN (take 4 from) a2)
                else Some (4, a2)))"

text \<open>
  \<^verbatim>\<open>BgpPathAttrib::BgpPathAttrib()\<close> clears the error fields and leaves the others as they
  are; \<open>a\<close> stands for the object before the constructor ran.
\<close>

definition BgpPathAttrib_new :: "BgpPathAttrib \<Rightarrow> BgpPathAttrib" where
  "BgpPathAttrib_new a = a\<lparr>err_code := 0, err_subcode := 0, err_buf := []\<rparr>"

section \<open>The UPDATE message on the wire\<close>

text \<open>
  A call either runs into a failed \<^verbatim>\<open>assert\<close> or returns.
\<close>

datatype 'a result = Abort | Ret 'a

text \<open>
  Modelled from the spec: \<^verbatim>\<open>getValue\<close> and \<^verbatim>\<open>putValue\<close> of value-op.h are not among the
  sources. They read and write a value of fixed width at a cursor and move the cursor
  past it; with \<^verbatim>\<open>ntohs\<close> and \<^verbatim>\<open>htons\<close> a 16-bit value is big-endian in the buffer.
  Memory is a list of bytes and a pointer into it an index. A store outside the list is
  lost: it is a store behind the end of the destination buffer.
\<close>

definition get16_be :: "u8 list \<Rightarrow> nat \<Rightarrow> u16" where
  "get16_be mem p = push_bit 8 (ucast (mem ! p)) OR ucast (mem ! (p + 1))"

definition put16_be :: "u8 list \<Rightarrow> nat \<Rightarrow> u16 \<Rightarrow> u8 list" where
  "put16_be mem p v = mem[p := ucast (drop_bit 8 v), p + 1 := ucast v]"

text \<open>\<^verbatim>\<open>memcpy\<close> into the memory at an index.\<close>

fun copy_bytes :: "u8 list \<Rightarrow> nat \<Rightarrow> u8 list \<Rightarrow> u8 list" where
  "copy_bytes mem p [] = mem"
| "copy_bytes mem p (b # bs) = copy_bytes (mem[p := b]) (p + 1) bs"

text \<open>
  \<^verbatim>\<open>memcpy(&prefix, buffer, n)\<close> into a \<^verbatim>\<open>uint32_t\<close> that holds 0: the bytes become the
  low bytes of the value in memory order (a little-endian host).
\<close>

fun le32 :: "u8 list \<Rightarrow> u32" where
  "le32 [] = 0"
| "le32 (b # bs) = ucast b OR push_bit 8 (le32 bs)"

subsection \<open>write\<close>

text \<open>
  The loop over the routes of \<^verbatim>\<open>withdrawn_routes\<close> and of \<^verbatim>\<open>nlri\<close>. The prefix bytes are
  copied from the address of the local variable \<^verbatim>\<open>route_len\<close>: the first is the length
  itself, the others are the bytes that follow the variable in memory, the parameter
  \<open>stack\<close>. \<^verbatim>\<open>Inl\<close> is \<^verbatim>\<open>return -1\<close>, with the memory as the routes before left it;
  \<^verbatim>\<open>Inr\<close> is the end of the loop, with the memory, the cursor and the number of bytes
  counted.
\<close>

fun write_routes ::
  "u8 list \<Rightarrow> nat \<Rightarrow> nat \<Rightarrow> Route list \<Rightarrow> u8 list \<Rightarrow> nat \<Rightarrow> nat \<Rightarrow> u8 list + (u8 list \<times> nat \<times> nat)" where
  "write_routes stack buf_sz tot_written [] mem buffer written = Inr (mem, buffer, written)"
| "write_routes stack buf_sz tot_written (route # rs) mem buffer written =
     (let route_len = getLength route;
          pfx_buf_sz = (unat route_len + 7) div 8
      in if 1 + written + pfx_buf_sz + tot_written > buf_sz then Inl mem
         else write_routes stack buf_sz tot_written rs
                (copy_bytes (mem[buffer := route_len]) (buffer + 1)
                   (take pfx_buf_sz (route_len # stack)))
                (buffer + 1 + pfx_buf_sz) (written + 1 + pfx_buf_sz))"

text \<open>
  The loop over the attributes. The serializer of an attribute is a virtual method; the
  parameter \<open>aw\<close> gives, for an attribute and the room left, the returned number and the
  bytes it stores from the pointer on. The pointer is the same for every attribute.
  \<^verbatim>\<open>Abort\<close> is the failed \<^verbatim>\<open>assert(buf_left >= 0)\<close>, \<^verbatim>\<open>Ret (Inl mem)\<close> is \<^verbatim>\<open>return -1\<close> with
  the memory as the serializers left it.
\<close>

fun write_attrs ::
  "(BgpPathAttrib \<Rightarrow> nat \<Rightarrow> int \<times> u8 list) \<Rightarrow> nat \<Rightarrow> nat \<Rightarrow> BgpPathAttrib list \<Rightarrow>
   u8 list \<Rightarrow> nat \<Rightarrow> nat \<Rightarrow> (u8 list + u8 list \<times> nat) result" where
  "write_attrs aw buf_sz tot_written [] mem buffer written = Ret (Inr (mem, written))"
| "write_attrs aw buf_sz tot_written (attr # as) mem buffer written =
     (if written + tot_written > buf_sz then Abort
      else if fst (aw attr (buf_sz - written - tot_written)) < 0
        then Ret (Inl (copy_bytes mem buffer (snd (aw attr (buf_sz - written - tot_written)))))
      else write_attrs aw buf_sz tot_written as
             (copy_bytes mem buffer (snd (aw attr (buf_sz - written - tot_written)))) buffer
             (written + nat (fst (aw attr (buf_sz - written - tot_written)))))"

text \<open>
  \<^verbatim>\<open>BgpUpdateMessage::write\<close>: the returned number and the memory, also when the number is
  \<open>-1\<close>. Each of the two length fields is two bytes wide and is written at the end, over
  the place that the cursor skipped with \<^verbatim>\<open>buffer++\<close>.
\<close>

definition BgpUpdateMessage_write ::
  "(BgpPathAttrib \<Rightarrow> nat \<Rightarrow> int \<times> u8 list) \<Rightarrow> u8 list \<Rightarrow> BgpUpdateMessage \<Rightarrow> u8 list \<Rightarrow> nat \<Rightarrow>
   (int \<times> u8 list) result" where
  "BgpUpdateMessage_write aw stack m to buf_sz =
     (if buf_sz < 4 then Ret (- 1, to)
      else case write_routes stack buf_sz 0 (withdrawn_routes m) to 1 0 of
        Inl mem \<Rightarrow> Ret (- 1, mem)
      | Inr (mem1, route_attrib_len_ptr, written_withdrawn_length) \<Rightarrow>
          (let mem2 = put16_be mem1 0 (of_nat written_withdrawn_length);
               tot_written = written_withdrawn_length + 2
           in case write_attrs aw buf_sz tot_written (path_attribute m) mem2
                     (route_attrib_len_ptr + 1) 0 of
                Abort \<Rightarrow> Abort
              | Ret (Inl mem) \<Rightarrow> Ret (- 1, mem)
              | Ret (Inr (mem3, written_attrib_length)) \<Rightarrow>
                  (let mem4 = put16_be mem3 route_attrib_len_ptr (of_nat written_attrib_length);
                       tot_written' = tot_written + written_attrib_length + 2
                   in case write_routes stack buf_sz tot_written' (nlri m) mem4
                             (route_attrib_len_ptr + 1) 0 of
                        Inl mem \<Rightarrow> Ret (- 1, mem)
                      | Inr (mem5, _, written_nlri_len) \<Rightarrow>
                          Ret (int (tot_written' + written_nlri_len), mem5))))"

subsection \<open>parse\<close>

text \<open>
  The loops over the withdrawn routes and over the NLRI: the flag is false after an error,
  and the routes pushed so far, the cursor and the number of bytes parsed follow.
\<close>

function parse_routes ::
  "u8 list \<Rightarrow> nat \<Rightarrow> nat \<Rightarrow> nat \<Rightarrow> Route list \<Rightarrow> bool \<times> Route list \<times> nat \<times> nat" where
  "parse_routes from buffer parsed len routes =
     (if parsed < len then
        (if len - parsed < 1 then (False, routes, buffer, parsed)
         else
           (let route_len = from ! buffer;
                route_buffer_len = (unat route_len + 7) div 8
            in if route_len > 32 then (False, routes, buffer + 1, parsed + 1)
               else if parsed + 1 + route_buffer_len > len then (False, routes, buffer + 1, parsed + 1)
               else parse_routes from (buffer + 1 + route_buffer_len) (parsed + 1 + route_buffer_len) len
                      (routes @ [\<lparr>getLength = route_len,
                                  getPrefix = le32 (take route_buffer_len (drop (buffer + 1) from))\<rparr>])))
      else (True, routes, buffer, parsed))"
  by pat_completeness auto
termination
  by (relation "measure (\<lambda>(from, buffer, parsed, len, routes). len - parsed)") auto

declare parse_routes.simps [simp del]

text \<open>\<^verbatim>\<open>BgpPathAttrib::getType\<close>: the type byte as an \<^verbatim>\<open>int8_t\<close>, or \<open>-1\<close>.\<close>

definition GetTypeFromBuffer :: "u8 list \<Rightarrow> nat \<Rightarrow> int" where
  "GetTypeFromBuffer from buffer_sz = (if buffer_sz < 3 then - 1 else sint (from ! 1))"

text \<open>
  The loop over the attributes. The parser of an attribute is a virtual method of the class
  that the type byte selects; the parameter \<open>ap\<close> gives, for the type, the ASN width, the
  buffer from the cursor on and the room left, the returned number and the parsed
  attribute. The result is the recorded error if any, the attributes pushed, the cursor
  and the 16-bit count of parsed bytes; the loop need not end, as a parser may return 0.
\<close>

partial_function (option) parse_attrs ::
  "(u8 \<Rightarrow> bool \<Rightarrow> u8 list \<Rightarrow> nat \<Rightarrow> int \<times> BgpPathAttrib) \<Rightarrow> bool \<Rightarrow> u8 list \<Rightarrow> nat \<Rightarrow> u16 \<Rightarrow> u16 \<Rightarrow>
   BgpPathAttrib list \<Rightarrow> ((u8 \<times> u8 \<times> u8 list) option \<times> BgpPathAttrib list \<times> nat \<times> u16) option" where
  "parse_attrs ap use_4b from buffer parsed len attrs =
     (if parsed < len then
        (if unat len - unat parsed < 3 then Some (Some (E_UPDATE, E_UNSPEC, []), attrs, buffer, parsed)
         else if GetTypeFromBuffer (drop buffer from) (unat len - unat parsed) < 0
           then Some (Some (E_UPDATE, E_UNSPEC, []), attrs, buffer, parsed)
         else if fst (ap (from ! (buffer + 1)) use_4b (drop buffer from) (unat len - unat parsed)) < 0
           then Some (Some
                  (err_code (snd (ap (from ! (buffer + 1)) use_4b (drop buffer from) (unat len - unat parsed))),
                   err_subcode (snd (ap (from ! (buffer + 1)) use_4b (drop buffer from) (unat len - unat parsed))),
                   err_buf (snd (ap (from ! (buffer + 1)) use_4b (drop buffer from) (unat len - unat parsed)))),
                  attrs, buffer, parsed)
         else parse_attrs ap use_4b from
                (buffer + nat (fst (ap (from ! (buffer + 1)) use_4b (drop buffer from) (unat len - unat parsed))))
                (parsed + word_of_int (fst (ap (from ! (buffer + 1)) use_4b (drop buffer from) (unat len - unat parsed))))
                len
                (attrs @ [snd (ap (from ! (buffer + 1)) use_4b (drop buffer from) (unat len - unat parsed))]))
      else Some (None, attrs, buffer, parsed))"

text \<open>
  \<^verbatim>\<open>BgpUpdateMessage::parse\<close>, on a message object \<open>m\<close> and \<open>msg_sz\<close> bytes at \<open>from\<close>.
  \<^verbatim>\<open>None\<close>: the attribute loop does not end. \<^verbatim>\<open>forwardParseError\<close> (not among the sources)
  records the error of the attribute in the message.
\<close>

definition BgpUpdateMessage_parse ::
  "(u8 \<Rightarrow> bool \<Rightarrow> u8 list \<Rightarrow> nat \<Rightarrow> int \<times> BgpPathAttrib) \<Rightarrow> BgpUpdateMessage \<Rightarrow> u8 list \<Rightarrow> nat \<Rightarrow>
   (int \<times> BgpUpdateMessage) result option" where
  "BgpUpdateMessage_parse ap m from msg_sz =
     (if msg_sz < 4 then Some (Ret (- 1, setError E_HEADER E_LENGTH [of_nat msg_sz] m))
      else if unat (get16_be from 0) > msg_sz - 4 then Some (Ret (- 1, setError E_UPDATE E_UNSPEC [] m))
      else case parse_routes from 2 0 (unat (get16_be from 0)) (withdrawn_routes m) of
        (ok, routes, buffer, parsed_withdrawn_len) \<Rightarrow>
          if \<not> ok then Some (Ret (- 1, setError E_UPDATE E_UNSPEC [] (m\<lparr>withdrawn_routes := routes\<rparr>)))
          else if parsed_withdrawn_len \<noteq> unat (get16_be from 0) then Some Abort
          else if unat (get16_be from buffer) + unat (get16_be from 0) + 4 > msg_sz
            then Some (Ret (- 1, setError E_UPDATE E_ATTR_LIST [] (m\<lparr>withdrawn_routes := routes\<rparr>)))
          else
            (case parse_attrs ap (use_4b_asn m) from (buffer + 2) 0 (get16_be from buffer) (path_attribute m) of
               None \<Rightarrow> None
             | Some (Some (err, suberr, data), attrs, buffer', parsed_attribute_len) \<Rightarrow>
                 Some (Ret (- 1, setError err suberr data
                   (m\<lparr>withdrawn_routes := routes, path_attribute := attrs\<rparr>)))
             | Some (None, attrs, buffer', parsed_attribute_len) \<Rightarrow>
                 if \<not> fst (validateAttribs (m\<lparr>withdrawn_routes := routes, path_attribute := attrs\<rparr>))
                 then Some (Ret (- 1, snd (validateAttribs (m\<lparr>withdrawn_routes := routes, path_attribute := attrs\<rparr>))))
                 else if parsed_attribute_len \<noteq> get16_be from buffer then Some Abort
                 else
                   (case parse_routes from buffer' 0
                           (msg_sz - 4 - unat parsed_attribute_len - parsed_withdrawn_len) (nlri m) of
                      (ok', routes', buffer'', parsed_nlri_len) \<Rightarrow>
                        if \<not> ok' then
                          Some (Ret (- 1, setError E_UPDATE E_UNSPEC []
                            (m\<lparr>withdrawn_routes := routes, path_attribute := attrs, nlri := routes'\<rparr>)))
                        else if parsed_nlri_len + unat parsed_attribute_len + parsed_withdrawn_len + 4 \<noteq> msg_sz
                          then Some Abort
                        else Some (Ret (int msg_sz,
                               m\<lparr>withdrawn_routes := routes, path_attribute := attrs, nlri := routes'\<rparr>)))))"

text \<open>\<^verbatim>\<open>BgpUpdateMessage(use_4b_asn)\<close>: a message without routes and attributes.\<close>

definition BgpUpdateMessage_new :: "bool \<Rightarrow> BgpUpdateMessage" where
  "BgpUpdateMessage_new b = empty_update\<lparr>use_4b_asn := b\<rparr>"

text \<open>A message with two withdrawn routes, 10.0.0.0/8 and 11.0.0.0/8, and the mandatory attributes.\<close>

definition example_update :: BgpUpdateMessage where
  "example_update =
     empty_update\<lparr>withdrawn_routes := [\<lparr>getLength = 8, getPrefix = 10\<rparr>, \<lparr>getLength = 8, getPrefix = 11\<rparr>],
                  path_attribute := [well_known ORIGIN (Origin 0), well_known AS_PATH (AsPath False []),
                                     well_known NEXT_HOP (Nexthop 1)]\<rparr>"

section \<open>The IPv6 routing information base\<close>

text \<open>
  Modelled from the spec: \<^verbatim>\<open>class Prefix6\<close> is not among the sources. A prefix is its 16
  address bytes and its length, and \<^verbatim>\<open>operator==\<close> compares both exactly.
\<close>

record Prefix6 =
  prefix6 :: "u8 list"
  length6 :: u8

text \<open>
  \<^verbatim>\<open>class BgpRib6Entry\<close>. The two next hops are arrays of 16 bytes; \<^verbatim>\<open>weight\<close> holds the
  bits of an \<^verbatim>\<open>int32_t\<close>. The field \<^verbatim>\<open>update_id\<close> of an entry is \<open>entry_update_id\<close>
  here, since the table has a field of the same name.
\<close>

record BgpRib6Entry =
  route :: Prefix6
  src_router_id :: u32
  nexthop_global :: "u8 list"
  nexthop_linklocal :: "u8 list"
  attribs :: "BgpPathAttrib list"
  entry_update_id :: u64
  weight :: u32

text \<open>\<^verbatim>\<open>class BgpRib6\<close>: the vector of entries and the counter \<^verbatim>\<open>update_id\<close>.\<close>

record BgpRib6 =
  rib :: "BgpRib6Entry list"
  update_id :: u64

text \<open>
  A next-hop argument is a pointer to 16 bytes, \<^verbatim>\<open>None\<close> is the null pointer.
  The constructor copies the global next hop without a test, so a null pointer there is
  undefined behaviour: the model has no entry then. It leaves \<^verbatim>\<open>update_id\<close> and
  \<^verbatim>\<open>weight\<close> of the entry unset (here 0); every caller assigns both.
\<close>

definition BgpRib6Entry_new ::
  "Prefix6 \<Rightarrow> u32 \<Rightarrow> u8 list option \<Rightarrow> u8 list option \<Rightarrow> BgpPathAttrib list \<Rightarrow> BgpRib6Entry option" where
  "BgpRib6Entry_new r src nh_global nh_linklocal attrs =
     (case nh_global of
        None \<Rightarrow> None
      | Some g \<Rightarrow>
          Some \<lparr>route = r, src_router_id = src, nexthop_global = take 16 g,
                nexthop_linklocal =
                  (case nh_linklocal of Some l \<Rightarrow> take 16 l | None \<Rightarrow> replicate 16 0),
                attribs = attrs, entry_update_id = 0, weight = 0\<rparr>)"

definition BgpRib6_new :: BgpRib6 where
  "BgpRib6_new = \<lparr>rib = [], update_id = 0\<rparr>"


text \<open>
  Modelled from the spec: \<^verbatim>\<open>BgpRib6Entry::operator>\<close> and the constructors of the
  attributes of a local route are not among the sources. The comparison is the parameter
  \<open>gt\<close> of the insertions; a local route carries \<open>Origin = IGP\<close> and an empty four-octet
  AS_PATH.
\<close>

definition local_attribs :: "BgpPathAttrib list" where
  "local_attribs = [well_known ORIGIN (Origin 0), well_known AS_PATH (AsPath True [])]"

text \<open>
  The loop of \<^verbatim>\<open>insertPriv\<close> over the table: at the first entry of the same route and
  source the new entry replaces it (erase, then push back) when it is better, and nothing
  changes otherwise. \<^verbatim>\<open>None\<close>: the loop ended without such an entry.
\<close>

fun insertPriv_scan ::
  "(BgpRib6Entry \<Rightarrow> BgpRib6Entry \<Rightarrow> bool) \<Rightarrow> BgpRib6Entry \<Rightarrow> u32 \<Rightarrow> Prefix6 \<Rightarrow>
   BgpRib6Entry list \<Rightarrow> (bool \<times> BgpRib6Entry list) option" where
  "insertPriv_scan gt new_entry src r [] = None"
| "insertPriv_scan gt new_entry src r (entry # es) =
     (if route entry = r \<and> src_router_id entry = src then
        (if gt new_entry entry then Some (True, es @ [new_entry]) else Some (False, entry # es))
      else map_option (\<lambda>(b, es'). (b, entry # es')) (insertPriv_scan gt new_entry src r es))"

text \<open>
  \<^verbatim>\<open>insertPriv\<close>. The result of every operation on the table is \<^verbatim>\<open>None\<close> when a null
  pointer was copied from, and the returned value with the new table otherwise.
\<close>

definition insertPriv ::
  "(BgpRib6Entry \<Rightarrow> BgpRib6Entry \<Rightarrow> bool) \<Rightarrow> BgpRib6 \<Rightarrow> u32 \<Rightarrow> Prefix6 \<Rightarrow>
   u8 list option \<Rightarrow> u8 list option \<Rightarrow> BgpPathAttrib list \<Rightarrow> u32 \<Rightarrow> (bool \<times> BgpRib6) option" where
  "insertPriv gt t src r nh_global nh_linklocal attrs w =
     (case BgpRib6Entry_new r src nh_global nh_linklocal attrs of
        None \<Rightarrow> None
      | Some e \<Rightarrow>
          (let new_entry = e\<lparr>entry_update_id := update_id t, weight := w\<rparr>
           in case insertPriv_scan gt new_entry src r (rib t) of
                Some (b, es) \<Rightarrow> Some (b, t\<lparr>rib := es\<rparr>)
              | None \<Rightarrow> Some (True, t\<lparr>rib := rib t @ [new_entry]\<rparr>)))"

text \<open>
  The single-route insertion from a peer: \<^verbatim>\<open>insertPriv\<close>, and the counter moves when the
  route was inserted.
\<close>

definition insert_peer ::
  "(BgpRib6Entry \<Rightarrow> BgpRib6Entry \<Rightarrow> bool) \<Rightarrow> BgpRib6 \<Rightarrow> u32 \<Rightarrow> Prefix6 \<Rightarrow>
   u8 list option \<Rightarrow> u8 list option \<Rightarrow> BgpPathAttrib list \<Rightarrow> u32 \<Rightarrow> (bool \<times> BgpRib6) option" where
  "insert_peer gt t src r nh_global nh_linklocal attrs w =
     (case insertPriv gt t src r nh_global nh_linklocal attrs w of
        None \<Rightarrow> None
      | Some (inserted, t1) \<Rightarrow>
          Some (inserted, if inserted then t1\<lparr>update_id := update_id t1 + 1\<rparr> else t1))"

text \<open>
  The loop of the multi-route insertion from a peer. It hands \<^verbatim>\<open>nexthop_linklocal\<close> to
  \<^verbatim>\<open>insertPriv\<close> in the place of the global next hop and \<^verbatim>\<open>nexthop_global\<close> in the
  place of the link-local one, as the source does.
\<close>

fun insert_peer_loop ::
  "(BgpRib6Entry \<Rightarrow> BgpRib6Entry \<Rightarrow> bool) \<Rightarrow> u32 \<Rightarrow> u8 list option \<Rightarrow> u8 list option \<Rightarrow>
   BgpPathAttrib list \<Rightarrow> u32 \<Rightarrow> Prefix6 list \<Rightarrow> nat \<Rightarrow> BgpRib6 \<Rightarrow> (nat \<times> BgpRib6) option" where
  "insert_peer_loop gt src nh_global nh_linklocal attrs w [] inserted t = Some (inserted, t)"
| "insert_peer_loop gt src nh_global nh_linklocal attrs w (r # rs) inserted t =
     (case insertPriv gt t src r nh_linklocal nh_global attrs w of
        None \<Rightarrow> None
      | Some (b, t1) \<Rightarrow>
          insert_peer_loop gt src nh_global nh_linklocal attrs w rs
            (if b then inserted + 1 else inserted) t1)"

definition insert_peer_routes ::
  "(BgpRib6Entry \<Rightarrow> BgpRib6Entry \<Rightarrow> bool) \<Rightarrow> BgpRib6 \<Rightarrow> u32 \<Rightarrow> Prefix6 list \<Rightarrow>
   u8 list option \<Rightarrow> u8 list option \<Rightarrow> BgpPathAttrib list \<Rightarrow> u32 \<Rightarrow> (nat \<times> BgpRib6) option" where
  "insert_peer_routes gt t src routes nh_global nh_linklocal attrs w =
     (case insert_peer_loop gt src nh_global nh_linklocal attrs w routes 0 t of
        None \<Rightarrow> None
      | Some (inserted, t1) \<Rightarrow> Some (inserted, t1\<lparr>update_id := update_id t1 + 1\<rparr>))"

text \<open>
  The loop of the single-route local insertion: \<^verbatim>\<open>None\<close> when a local entry of the route
  exists, otherwise the update id to use, which is the one of the last local entry with
  the same two next hops when there is one.
\<close>

fun insert_local_scan :: "BgpRib6Entry \<Rightarrow> Prefix6 \<Rightarrow> u64 \<Rightarrow> BgpRib6Entry list \<Rightarrow> u64 option" where
  "insert_local_scan new_entry r use_update_id [] = Some use_update_id"
| "insert_local_scan new_entry r use_update_id (entry # es) =
     (if src_router_id entry = 0 \<and> route entry = r then None
      else insert_local_scan new_entry r
             (if src_router_id entry = 0 \<and>
                 nexthop_global new_entry = nexthop_global entry \<and>
                 nexthop_linklocal new_entry = nexthop_linklocal entry
              then entry_update_id entry else use_update_id) es)"

text \<open>The returned pointer is the inserted entry, \<^verbatim>\<open>None\<close> for the null pointer.\<close>

definition insert_local ::
  "BgpRib6 \<Rightarrow> Prefix6 \<Rightarrow> u8 list option \<Rightarrow> u8 list option \<Rightarrow> u32 \<Rightarrow>
   (BgpRib6Entry option \<times> BgpRib6) option" where
  "insert_local t r nh_global nh_linklocal w =
     (case BgpRib6Entry_new r 0 nh_global nh_linklocal local_attribs of
        None \<Rightarrow> None
      | Some e \<Rightarrow>
          (case insert_local_scan (e\<lparr>weight := w\<rparr>) r (update_id t) (rib t) of
             None \<Rightarrow> Some (None, t)
           | Some use_update_id \<Rightarrow>
               (let new_entry = e\<lparr>weight := w, entry_update_id := use_update_id\<rparr>
                in Some (Some new_entry,
                     t\<lparr>rib := rib t @ [new_entry],
                       update_id := (if use_update_id = update_id t then update_id t + 1
                                     else update_id t)\<rparr>))))"

text \<open>
  The multi-route local insertion: a route with a local entry is skipped, every other
  route is entered with the current counter, and the counter moves once at the end.
\<close>

fun insert_local_loop ::
  "u8 list option \<Rightarrow> u8 list option \<Rightarrow> u32 \<Rightarrow> Prefix6 list \<Rightarrow> BgpRib6Entry list \<Rightarrow> BgpRib6 \<Rightarrow>
   (BgpRib6Entry list \<times> BgpRib6) option" where
  "insert_local_loop nh_global nh_linklocal w [] inserted t = Some (inserted, t)"
| "insert_local_loop nh_global nh_linklocal w (r # rs) inserted t =
     (if \<exists>entry\<in>set (rib t). src_router_id entry = 0 \<and> route entry = r
      then insert_local_loop nh_global nh_linklocal w rs inserted t
      else case BgpRib6Entry_new r 0 nh_global nh_linklocal local_attribs of
             None \<Rightarrow> None
           | Some e \<Rightarrow>
               (let new_entry = e\<lparr>entry_update_id := update_id t, weight := w\<rparr>
                in insert_local_loop nh_global nh_linklocal w rs
                     (inserted @ [new_entry]) (t\<lparr>rib := rib t @ [new_entry]\<rparr>)))"

definition insert_local_routes ::
  "BgpRib6 \<Rightarrow> Prefix6 list \<Rightarrow> u8 list option \<Rightarrow> u8 list option \<Rightarrow> u32 \<Rightarrow>
   (BgpRib6Entry list \<times> BgpRib6) option" where
  "insert_local_routes t routes nh_global nh_linklocal w =
     (case insert_local_loop nh_global nh_linklocal w routes [] t of
        None \<Rightarrow> None
      | Some (inserted, t1) \<Rightarrow> Some (inserted, t1\<lparr>update_id := update_id t1 + 1\<rparr>))"

text \<open>
  The two local insertions that also publish: the event handed to the bus is the third
  component. The bus does not call back into the table.
\<close>

record Route6AddEvent =
  ev_routes :: "Prefix6 list"
  ev_attribs :: "BgpPathAttrib list"

definition insert_local_bus ::
  "BgpRib6 \<Rightarrow> Prefix6 \<Rightarrow> u8 list option \<Rightarrow> u8 list option \<Rightarrow> u32 \<Rightarrow>
   (BgpRib6Entry option \<times> BgpRib6 \<times> Route6AddEvent option) option" where
  "insert_local_bus t r nh_global nh_linklocal w =
     (case insert_local t r nh_global nh_linklocal w of
        None \<Rightarrow> None
      | Some (None, t1) \<Rightarrow> Some (None, t1, None)
      | Some (Some entry, t1) \<Rightarrow>
          Some (Some entry, t1, Some \<lparr>ev_routes = [route entry], ev_attribs = attribs entry\<rparr>))"

definition insert_local_routes_bus ::
  "BgpRib6 \<Rightarrow> Prefix6 list \<Rightarrow> u8 list option \<Rightarrow> u8 list option \<Rightarrow> u32 \<Rightarrow>
   (BgpRib6Entry list \<times> BgpRib6 \<times> Route6AddEvent option) option" where
  "insert_local_routes_bus t routes nh_global nh_linklocal w =
     (case insert_local_routes t routes nh_global nh_linklocal w of
        None \<Rightarrow> None
      | Some (inserted, t1) \<Rightarrow>
          Some (inserted, t1,
            (case inserted of
               [] \<Rightarrow> None
             | entry # _ \<Rightarrow> Some \<lparr>ev_routes = map route inserted, ev_attribs = attribs entry\<rparr>)))"

text \<open>\<^verbatim>\<open>withdraw\<close>: erases the first entry of the route and source and stops.\<close>

fun withdraw_scan :: "u32 \<Rightarrow> Prefix6 \<Rightarrow> BgpRib6Entry list \<Rightarrow> bool \<times> BgpRib6Entry list" where
  "withdraw_scan src r [] = (False, [])"
| "withdraw_scan src r (entry # es) =
     (if route entry = r \<and> src_router_id entry = src then (True, es)
      else (fst (withdraw_scan src r es), entry # snd (withdraw_scan src r es)))"

definition withdraw :: "BgpRib6 \<Rightarrow> u32 \<Rightarrow> Prefix6 \<Rightarrow> bool \<times> BgpRib6" where
  "withdraw t src r = (fst (withdraw_scan src r (rib t)), t\<lparr>rib := snd (withdraw_scan src r (rib t))\<rparr>)"

fun withdraw_routes_loop :: "u32 \<Rightarrow> Prefix6 list \<Rightarrow> nat \<Rightarrow> BgpRib6 \<Rightarrow> nat \<times> BgpRib6" where
  "withdraw_routes_loop src [] dropped t = (dropped, t)"
| "withdraw_routes_loop src (r # rs) dropped t =
     withdraw_routes_loop src rs
       (if fst (withdraw t src r) then dropped + 1 else dropped) (snd (withdraw t src r))"

definition withdraw_routes :: "BgpRib6 \<Rightarrow> u32 \<Rightarrow> Prefix6 list \<Rightarrow> nat \<times> BgpRib6" where
  "withdraw_routes t src routes = withdraw_routes_loop src routes 0 t"

text \<open>\<^verbatim>\<open>discard\<close>: erases every entry of the source and returns their routes.\<close>

definition discard :: "BgpRib6 \<Rightarrow> u32 \<Rightarrow> Prefix6 list \<times> BgpRib6" where
  "discard t src =
     (map route (filter (\<lambda>entry. src_router_id entry = src) (rib t)),
      t\<lparr>rib := filter (\<lambda>entry. src_router_id entry \<noteq> src) (rib t)\<rparr>)"

text \<open>
  The operations that change a table, and one step of a table under an operation
  (\<^verbatim>\<open>None\<close> as above). The lookups and \<^verbatim>\<open>get\<close> are \<^verbatim>\<open>const\<close>.
\<close>

datatype rib_op =
    InsertLocal Prefix6 "u8 list option" "u8 list option" u32
  | InsertLocalBus Prefix6 "u8 list option" "u8 list option" u32
  | InsertLocalRoutes "Prefix6 list" "u8 list option" "u8 list option" u32
  | InsertLocalRoutesBus "Prefix6 list" "u8 list option" "u8 list option" u32
  | InsertPeer u32 Prefix6 "u8 list option" "u8 list option" "BgpPathAttrib list" u32
  | InsertPeerRoutes u32 "Prefix6 list" "u8 list option" "u8 list option" "BgpPathAttrib list" u32
  | Withdraw u32 Prefix6
  | WithdrawRoutes u32 "Prefix6 list"
  | Discard u32

fun rib_step :: "(BgpRib6Entry \<Rightarrow> BgpRib6Entry \<Rightarrow> bool) \<Rightarrow> rib_op \<Rightarrow> BgpRib6 \<Rightarrow> BgpRib6 option" where
  "rib_step gt (InsertLocal r g l w) t = map_option snd (insert_local t r g l w)"
| "rib_step gt (InsertLocalBus r g l w) t = map_option (fst \<circ> snd) (insert_local_bus t r g l w)"
| "rib_step gt (InsertLocalRoutes rs g l w) t = map_option snd (insert_local_routes t rs g l w)"
| "rib_step gt (InsertLocalRoutesBus rs g l w) t =
     map_option (fst \<circ> snd) (insert_local_routes_bus t rs g l w)"
| "rib_step gt (InsertPeer src r g l attrs w) t = map_option snd (insert_peer gt t src r g l attrs w)"
| "rib_step gt (InsertPeerRoutes src rs g l attrs w) t =
     map_option snd (insert_peer_routes gt t src rs g l attrs w)"
| "rib_step gt (Withdraw src r) t = Some (snd (withdraw t src r))"
| "rib_step gt (WithdrawRoutes src rs) t = Some (snd (withdraw_routes t src rs))"
| "rib_step gt (Discard src) t = Some (snd (discard t src))"

text \<open>The insertions that take a vector of routes.\<close>

fun batch_insert :: "rib_op \<Rightarrow> bool" where
  "batch_insert (InsertLocalRoutes rs g l w) = True"
| "batch_insert (InsertLocalRoutesBus rs g l w) = True"
| "batch_insert (InsertPeerRoutes src rs g l attrs w) = True"
| "batch_insert _ = False"

text \<open>
  The interface asks for a global next hop in every insertion and allows a null link-local
  one (\<^verbatim>\<open>if none, use NULL\<close>).
\<close>

fun nexthop_global_given :: "rib_op \<Rightarrow> bool" where
  "nexthop_global_given (InsertLocal r g l w) = (g \<noteq> None)"
| "nexthop_global_given (InsertLocalBus r g l w) = (g \<noteq> None)"
| "nexthop_global_given (InsertLocalRoutes rs g l w) = (g \<noteq> None)"
| "nexthop_global_given (InsertLocalRoutesBus rs g l w) = (g \<noteq> None)"
| "nexthop_global_given (InsertPeer src r g l attrs w) = (g \<noteq> None)"
| "nexthop_global_given (InsertPeerRoutes src rs g l attrs w) = (g \<noteq> None)"
| "nexthop_global_given _ = True"

text \<open>The multi-route insertion from a peer with a route to insert and a null link-local next hop.\<close>

fun peer_routes_without_linklocal :: "rib_op \<Rightarrow> bool" where
  "peer_routes_without_linklocal (InsertPeerRoutes src rs g l attrs w) = (l = None \<and> rs \<noteq> [])"
| "peer_routes_without_linklocal _ = False"

text \<open>A run of operations from a table, stopping at undefined behaviour.\<close>

fun rib_run :: "(BgpRib6Entry \<Rightarrow> BgpRib6Entry \<Rightarrow> bool) \<Rightarrow> rib_op list \<Rightarrow> BgpRib6 \<Rightarrow> BgpRib6 option" where
  "rib_run gt [] t = Some t"
| "rib_run gt (op # ops) t = (case rib_step gt op t of None \<Rightarrow> None | Some t1 \<Rightarrow> rib_run gt ops t1)"

text \<open>An entry has the key of a withdrawal when route and source are the same.\<close>

definition same_key :: "u32 \<Rightarrow> Prefix6 \<Rightarrow> BgpRib6Entry \<Rightarrow> bool" where
  "same_key src r entry \<longleftrightarrow> route entry = r \<and> src_router_id entry = src"

text \<open>Example prefixes and entries.\<close>

definition example_prefix :: "u8 \<Rightarrow> Prefix6" where
  "example_prefix b = \<lparr>prefix6 = [0x20, 0x01, 0x0d, 0xb8, b, 0, 0, 0, 0, 0, 0, 0, 0, 0, 0, 0], length6 = 48\<rparr>"

definition example_entry :: "u32 \<Rightarrow> u8 \<Rightarrow> BgpRib6Entry" where
  "example_entry src b =
     \<lparr>route = example_prefix b, src_router_id = src, nexthop_global = replicate 16 0x20,
      nexthop_linklocal = replicate 16 0xfe, attribs = [], entry_update_id = 0, weight = 0\<rparr>"

section \<open>Properties of the attribute list\<close>

lemma hasAttrib_list_iff: "hasAttrib_list as t \<longleftrightarrow> t \<in> set (map type_code as)"
  by (induction as) auto

text \<open>
  C10. \<^verbatim>\<open>addAttrib\<close> returns false and leaves the message as it is when the type code of
  the attribute already occurs in the list; otherwise it returns true and the list is the
  old one with the attribute appended. So a list whose type codes are pairwise distinct
  stays so.
\<close>

theorem addAttrib_no_duplicate:
  "(type_code a \<in> set (map type_code (path_attribute m)) \<longrightarrow> addAttrib m a = (False, m)) \<and>
   (type_code a \<notin> set (map type_code (path_attribute m)) \<longrightarrow>
      fst (addAttrib m a) \<and>
      path_attribute (snd (addAttrib m a)) = path_attribute m @ [a] \<and>
      snd (addAttrib m a) = m\<lparr>path_attribute := path_attribute m @ [a]\<rparr>) \<and>
   (distinct (map type_code (path_attribute m)) \<longrightarrow>
      distinct (map type_code (path_attribute (snd (addAttrib m a)))))"
  by (auto simp: addAttrib_def hasAttrib_def hasAttrib_list_iff)

theorem addAttrib_no_duplicate_witness:
  "addAttrib (empty_update\<lparr>path_attribute := [well_known ORIGIN (Origin 0)]\<rparr>) (well_known ORIGIN (Origin 1))
     = (False, empty_update\<lparr>path_attribute := [well_known ORIGIN (Origin 0)]\<rparr>) \<and>
   fst (addAttrib (empty_update\<lparr>path_attribute := [well_known ORIGIN (Origin 0)]\<rparr>) (well_known NEXT_HOP (Nexthop 1))) \<and>
   path_attribute (snd (addAttrib (empty_update\<lparr>path_attribute := [well_known ORIGIN (Origin 0)]\<rparr>)
       (well_known NEXT_HOP (Nexthop 1))))
     = [well_known ORIGIN (Origin 0), well_known NEXT_HOP (Nexthop 1)] \<and>
   distinct (map type_code (path_attribute (snd (addAttrib
       (empty_update\<lparr>path_attribute := [well_known ORIGIN (Origin 0)]\<rparr>) (well_known NEXT_HOP (Nexthop 1))))))"
  using addAttrib_no_duplicate [of "well_known ORIGIN (Origin 1)"
      "empty_update\<lparr>path_attribute := [well_known ORIGIN (Origin 0)]\<rparr>"]
    addAttrib_no_duplicate [of "well_known NEXT_HOP (Nexthop 1)"
      "empty_update\<lparr>path_attribute := [well_known ORIGIN (Origin 0)]\<rparr>"]
  by (simp add: well_known_def empty_update_def)

text \<open>
  The bitmap of \<^verbatim>\<open>validateAttribs\<close> starts at 0 and the update only clears bits, so the
  test for a duplicate never succeeds: the result depends on the presence of the three
  mandatory type codes alone.
\<close>

lemma validateAttribs_loop_zero:
  "validateAttribs_loop as has_origin has_nexthop has_as_path 0 =
     Some (has_origin \<or> ORIGIN \<in> set (map type_code as),
           has_nexthop \<or> NEXT_HOP \<in> set (map type_code as),
           has_as_path \<or> AS_PATH \<in> set (map type_code as))"
  by (induction as arbitrary: has_origin has_nexthop has_as_path) (auto simp: Let_def)

lemma validateAttribs_mandatory_only:
  "validateAttribs m =
     (if {ORIGIN, AS_PATH, NEXT_HOP} \<subseteq> set (map type_code (path_attribute m)) then (True, m)
      else (False, setError E_UPDATE E_MISS_WELL_KNOWN [] m))"
  by (auto simp: validateAttribs_def validateAttribs_loop_zero)

text \<open>
  C2. A message that carries ORIGIN, AS_PATH, NEXT_HOP and a second ORIGIN passes
  \<^verbatim>\<open>validateAttribs\<close>: the result is true and no error is recorded, although the type
  code 1 occurs twice.
\<close>

theorem validateAttribs_accepts_duplicate:
  "validateAttribs (empty_update\<lparr>path_attribute :=
      [well_known ORIGIN (Origin 0), well_known AS_PATH (AsPath False []),
       well_known NEXT_HOP (Nexthop 1), well_known ORIGIN (Origin 2)]\<rparr>)
   = (True, empty_update\<lparr>path_attribute :=
      [well_known ORIGIN (Origin 0), well_known AS_PATH (AsPath False []),
       well_known NEXT_HOP (Nexthop 1), well_known ORIGIN (Origin 2)]\<rparr>)"
  by (simp add: validateAttribs_def well_known_def empty_update_def)

lemmas example_defs = seg2b_def seg4b_def update_with_def as4_path_attr_def well_known_def
  empty_update_def BgpPathAttribAs4Path_new_def

subsection \<open>Attribute lists\<close>

lemma getAttrib_list_has: "getAttrib_list as t = Inr a \<Longrightarrow> hasAttrib_list as t"
  by (induction as) (auto split: if_splits)

lemma getAttrib_list_type: "getAttrib_list as t = Inr a \<Longrightarrow> type_code a = t"
  by (induction as) (auto split: if_splits)

lemma getAttrib_list_drop_other:
  "t \<noteq> t' \<Longrightarrow> getAttrib_list (snd (dropAttrib_list as t')) t = getAttrib_list as t"
  by (induction as) auto

lemma getAttrib_list_update_first:
  "getAttrib_list as t = Inr a \<Longrightarrow> type_code (f a) = t \<Longrightarrow>
   getAttrib_list (update_first t f as) t = Inr (f a)"
  by (induction as) (auto split: if_splits)

lemma type_codes_drop: "map type_code (snd (dropAttrib_list as t)) = remove1 t (map type_code as)"
  by (induction as) auto

lemma type_codes_update_first:
  "(\<And>a. type_code (f a) = type_code a) \<Longrightarrow> map type_code (update_first t f as) = map type_code as"
  by (induction as) auto

lemma getAttrib_list_append:
  "hasAttrib_list P t \<Longrightarrow> getAttrib_list (P @ Q) t = getAttrib_list P t"
  by (induction P) auto

lemma getAttrib_list_append_last:
  "\<not> hasAttrib_list P t \<Longrightarrow> getAttrib_list (P @ [a]) t = (if type_code a = t then Inr a else Inl NoSuchAttribute)"
  by (induction P) auto

lemma hasAttrib_list_append:
  "hasAttrib_list (P @ Q) t \<longleftrightarrow> hasAttrib_list P t \<or> hasAttrib_list Q t"
  by (auto simp: hasAttrib_list_iff)

lemma dropAttrib_list_append_last:
  "\<not> hasAttrib_list P t \<Longrightarrow> type_code a = t \<Longrightarrow> dropAttrib_list (P @ [a]) t = (True, P)"
  by (induction P) auto

lemma dropAttrib_list_absent: "\<not> hasAttrib_list P t \<Longrightarrow> dropAttrib_list P t = (False, P)"
  by (induction P) auto

lemma update_first_append:
  "hasAttrib_list P t \<Longrightarrow> update_first t f (P @ Q) = update_first t f P @ Q"
  by (induction P) auto

lemma update_first_same:
  "getAttrib_list P t = Inr a \<Longrightarrow> f a = a \<Longrightarrow> update_first t f P = P"
  by (induction P) (auto split: if_splits)

lemma update_first_twice:
  "(\<And>a. type_code (g a) = type_code a) \<Longrightarrow>
   update_first t f (update_first t g P) = update_first t (\<lambda>a. f (g a)) P"
  by (induction P) auto

lemma hasAttrib_list_update_first:
  "(\<And>a. type_code (f a) = type_code a) \<Longrightarrow>
   hasAttrib_list (update_first t f P) t' = hasAttrib_list P t'"
  by (simp add: hasAttrib_list_iff type_codes_update_first)

subsection \<open>Two-octet and four-octet ASNs\<close>

lemma asn16_small: "v < 0x10000 \<Longrightarrow> asn16 v = v"
  unfolding asn16_def
  by (simp add: word_unat_eq_iff unsigned_ucast_eq take_bit_eq_mod unat_mod word_less_nat_alt)

lemma downgrade_asn_small: "asn < 0xffff \<Longrightarrow> downgrade_asn asn = asn"
  unfolding downgrade_asn_def
  by (simp add: word_unat_eq_iff unsigned_ucast_eq take_bit_eq_mod unat_mod word_less_nat_alt word_le_nat_alt)

lemma downgrade_asn_wide: "asn \<ge> 0xffff \<Longrightarrow> downgrade_asn asn = AS_TRANS"
  unfolding downgrade_asn_def by simp

lemma narrow_less: "\<not> (a :: u32) > 0xffff \<Longrightarrow> a \<noteq> 0xffff \<Longrightarrow> a < 0xffff"
  by (simp add: word_less_nat_alt word_unat_eq_iff)

lemma downgrade_asn_to_trans: "a \<noteq> 0xffff \<Longrightarrow> downgrade_asn a = to_trans a"
proof (cases "a > 0xffff")
  case True
  then have "a \<ge> 0xffff" by simp
  with True show ?thesis by (simp add: downgrade_asn_wide)
next
  case False
  assume "a \<noteq> 0xffff"
  with False have "a < 0xffff" by (rule narrow_less)
  with False show ?thesis by (simp add: downgrade_asn_small)
qed

lemma asn16_to_trans: "a \<noteq> 0xffff \<Longrightarrow> asn16 (to_trans a) = to_trans a"
proof (cases "a > 0xffff")
  case True
  then show ?thesis by (simp add: asn16_small)
next
  case False
  assume "a \<noteq> 0xffff"
  with False have "a < 0xffff" by (rule narrow_less)
  then have "a < 0x10000" by (simp add: word_less_nat_alt)
  with False show ?thesis by (simp add: asn16_small)
qed

subsection \<open>The restore loop and its closed form\<close>

lemma restore_asns_length: "length (restore_asns full has it incr vs) = length vs"
  by (induction vs arbitrary: it incr) (auto simp: Let_def)

lemma restore_asns_idle:
  "\<not> (has \<and> it \<noteq> length full) \<Longrightarrow> restore_asns full has it incr vs = map asn16 vs"
  by (induction vs) auto

lemma restore_asns_incr_nth:
  "it \<le> length full \<Longrightarrow> i < length vs \<Longrightarrow>
   restore_asns full (full \<noteq> []) it True vs ! i =
     (if asn16 (vs ! i) = AS_TRANS \<and> it + i < length full then full ! (it + i) else asn16 (vs ! i))"
proof (induction vs arbitrary: it i)
  case Nil
  then show ?case by simp
next
  case (Cons v vs)
  show ?case
  proof (cases "it < length full")
    case True
    then have ne: "full \<noteq> []" by auto
    show ?thesis
    proof (cases i)
      case 0
      with True ne show ?thesis by (simp add: Let_def)
    next
      case (Suc j)
      with Cons.prems have j: "j < length vs" by simp
      from True have "Suc it \<le> length full" by simp
      from Cons.IH [OF this j] True ne Suc show ?thesis by (simp add: Let_def)
    qed
  next
    case False
    with Cons.prems have "it = length full" by simp
    then have "restore_asns full (full \<noteq> []) it True (v # vs) = map asn16 (v # vs)"
      by (intro restore_asns_idle) simp
    with False Cons.prems show ?thesis by (cases i) auto
  qed
qed

lemma restore_asns_until_trans:
  "restore_asns full has it False vs =
     map asn16 (takeWhile (\<lambda>v. asn16 v \<noteq> AS_TRANS) vs) @
     restore_asns full has it True (dropWhile (\<lambda>v. asn16 v \<noteq> AS_TRANS) vs)"
proof (induction vs)
  case Nil
  then show ?case by simp
next
  case (Cons v vs)
  show ?case
  proof (cases "asn16 v = AS_TRANS")
    case True
    show ?thesis
    proof (cases "has \<and> it \<noteq> length full")
      case True
      with \<open>asn16 v = AS_TRANS\<close> show ?thesis by (simp add: Let_def)
    next
      case False
      then have "restore_asns full has it False (v # vs) = map asn16 (v # vs)"
        and "restore_asns full has it True (v # vs) = map asn16 (v # vs)"
        by (rule restore_asns_idle)+
      with True show ?thesis by simp
    qed
  next
    case False
    with Cons.IH show ?thesis by (auto simp: Let_def)
  qed
qed

lemma iter_4b_steps_le: "iter_4b_steps full \<le> length full"
  by (induction full) auto

lemma drop_iter_4b_steps: "drop (iter_4b_steps full) full = dropWhile (\<lambda>a. a \<le> 0xffff) full"
  by (induction full) (auto simp: not_less)

lemma restore_asns_closed_form:
  "restore_asns full (full \<noteq> []) (iter_4b_steps full) False vs = restore_asns_closed full vs"
proof -
  let ?Q = "\<lambda>v. asn16 v \<noteq> AS_TRANS"
  let ?it = "iter_4b_steps full"
  let ?tail = "dropWhile (\<lambda>a. a \<le> 0xffff) full"
  let ?post = "dropWhile ?Q vs"
  let ?f = "\<lambda>(w, j). if w = AS_TRANS \<and> j < length ?tail then ?tail ! j else w"
  have tail: "?tail = drop ?it full" by (simp add: drop_iter_4b_steps)
  have it: "?it \<le> length full" by (simp add: iter_4b_steps_le)
  have k: "length (takeWhile (\<lambda>w. w \<noteq> AS_TRANS) (map asn16 vs)) = length (takeWhile ?Q vs)"
    by (simp add: takeWhile_map comp_def)
  have pre: "take (length (takeWhile ?Q vs)) (map asn16 vs) = map asn16 (takeWhile ?Q vs)"
    by (simp add: take_map takeWhile_eq_take [symmetric])
  have post: "drop (length (takeWhile ?Q vs)) (map asn16 vs) = map asn16 ?post"
    by (simp add: drop_map dropWhile_eq_drop [symmetric])
  have len: "length (map asn16 vs) - length (takeWhile ?Q vs) = length ?post"
    by (simp add: dropWhile_eq_drop)
  have run: "restore_asns full (full \<noteq> []) ?it True ?post =
        map ?f (zip (map asn16 ?post) [0..<length ?post])"
  proof (rule nth_equalityI)
    show "length (restore_asns full (full \<noteq> []) ?it True ?post) =
          length (map ?f (zip (map asn16 ?post) [0..<length ?post]))"
      by (simp add: restore_asns_length)
  next
    fix i assume "i < length (restore_asns full (full \<noteq> []) ?it True ?post)"
    then have i: "i < length ?post" by (simp add: restore_asns_length)
    from restore_asns_incr_nth [OF it i] i it
    show "restore_asns full (full \<noteq> []) ?it True ?post ! i =
          map ?f (zip (map asn16 ?post) [0..<length ?post]) ! i"
      by (auto simp: tail)
  qed
  have "restore_asns_closed full vs =
        map asn16 (takeWhile ?Q vs) @ map ?f (zip (map asn16 ?post) [0..<length ?post])"
    unfolding restore_asns_closed_def Let_def k pre post len ..
  also have "\<dots> = restore_asns full (full \<noteq> []) ?it False vs"
    by (simp only: run [symmetric] restore_asns_until_trans [of full _ _ vs, symmetric])
  finally show ?thesis ..
qed

lemma iter_4b_steps_append:
  "\<forall>a\<in>set A. a \<le> 0xffff \<Longrightarrow> iter_4b_steps (A @ xs) = length A + iter_4b_steps xs"
  by (induction A) (auto simp: not_less)

lemma restore_asns_aligned:
  "\<forall>a\<in>set rest. a \<noteq> 0xffff \<and> a \<noteq> AS_TRANS \<Longrightarrow>
   restore_asns (A @ rest @ B) True (length A) True (map to_trans rest) = rest"
proof (induction rest arbitrary: A)
  case Nil
  then show ?case by simp
next
  case (Cons v r)
  from Cons.prems have v: "v \<noteq> 0xffff" "v \<noteq> AS_TRANS" and r: "\<forall>a\<in>set r. a \<noteq> 0xffff \<and> a \<noteq> AS_TRANS"
    by simp_all
  have ih: "restore_asns (A @ (v # r) @ B) True (Suc (length A)) True (map to_trans r) = r"
    using Cons.IH [OF r, of "A @ [v]"] by simp
  have "asn16 (to_trans v) = to_trans v" by (rule asn16_to_trans [OF v(1)])
  with ih v show ?case
    by (cases "v > 0xffff") (simp_all add: Let_def nth_append)
qed

lemma restore_asns_first_trans:
  "asn16 v = AS_TRANS \<Longrightarrow>
   restore_asns full has it False (v # vs) = restore_asns full has it True (v # vs)"
  using restore_asns_until_trans [of full has it "v # vs"] by simp

lemma restore_asns_own_segment:
  "\<forall>a\<in>set A. a \<le> 0xffff \<Longrightarrow> \<forall>a\<in>set rest. a \<noteq> 0xffff \<and> a \<noteq> AS_TRANS \<Longrightarrow>
   restore_asns (A @ rest @ B) (A @ rest @ B \<noteq> []) (iter_4b_steps (A @ rest @ B)) False
     (map to_trans rest) = rest"
proof (induction rest arbitrary: A)
  case Nil
  then show ?case by simp
next
  case (Cons v r)
  from Cons.prems have v: "v \<noteq> 0xffff" "v \<noteq> AS_TRANS" and r: "\<forall>a\<in>set r. a \<noteq> 0xffff \<and> a \<noteq> AS_TRANS"
    by simp_all
  show ?case
  proof (cases "v > 0xffff")
    case True
    then have steps: "iter_4b_steps (A @ (v # r) @ B) = length A"
      using Cons.prems(1) by (simp add: iter_4b_steps_append)
    have "asn16 (to_trans v) = AS_TRANS" using True asn16_to_trans [OF v(1)] by simp
    then have "restore_asns (A @ (v # r) @ B) True (length A) False (map to_trans (v # r)) =
               restore_asns (A @ (v # r) @ B) True (length A) True (map to_trans (v # r))"
      by (simp only: list.map restore_asns_first_trans)
    also have "\<dots> = v # r" by (rule restore_asns_aligned [OF Cons.prems(2)])
    finally have eq: "restore_asns (A @ (v # r) @ B) True (length A) False (map to_trans (v # r)) = v # r" .
    have has: "(A @ (v # r) @ B \<noteq> []) = True" by simp
    show ?thesis unfolding steps has by (rule eq)
  next
    case False
    then have le: "v \<le> 0xffff" by (simp add: not_less)
    with Cons.prems(1) have A': "\<forall>a\<in>set (A @ [v]). a \<le> 0xffff" by simp
    have ih: "restore_asns (A @ (v # r) @ B) (A @ (v # r) @ B \<noteq> [])
                (iter_4b_steps (A @ (v # r) @ B)) False (map to_trans r) = r"
      using Cons.IH [OF A' r] by simp
    have "asn16 (to_trans v) = v" using False asn16_to_trans [OF v(1)] by simp
    with ih v False show ?thesis by (auto simp: Let_def)
  qed
qed

lemma restore_asns_narrow:
  "\<forall>a\<in>set vs. a < 0xffff \<and> a \<noteq> AS_TRANS \<Longrightarrow> restore_asns full has it False vs = vs"
proof (induction vs)
  case Nil
  then show ?case by simp
next
  case (Cons v vs)
  then have "v < 0x10000" by (simp add: word_less_nat_alt)
  then have "asn16 v = v" by (rule asn16_small)
  with Cons show ?case by (auto simp: Let_def)
qed

lemma as4_sequence_asns_narrow:
  "\<forall>u\<in>set us. \<not> wide_seg u \<Longrightarrow> \<forall>a\<in>set (as4_sequence_asns us). a \<le> 0xffff"
  by (auto simp: as4_sequence_asns_def wide_seg_def not_less)

lemma restore_asns_roundtrip:
  assumes clean: "\<forall>s\<in>set as4_paths. seg_is_4b s \<and> (\<forall>a\<in>set (seg_value s). a \<noteq> 0xffff \<and> a \<noteq> AS_TRANS)"
    and one: "length (filter wide_seg as4_paths) \<le> 1"
    and seq: "\<forall>s\<in>set as4_paths. wide_seg s \<longrightarrow> seg_type s = AS_SEQUENCE"
    and s: "s \<in> set as4_paths"
  shows "restore_asns (as4_sequence_asns as4_paths) (as4_sequence_asns as4_paths \<noteq> [])
           (iter_4b_steps (as4_sequence_asns as4_paths)) False (map to_trans (seg_value s))
         = seg_value s"
proof (cases "wide_seg s")
  case False
  with clean s have "\<forall>a\<in>set (seg_value s). a < 0xffff \<and> a \<noteq> AS_TRANS"
    by (auto simp: wide_seg_def intro: narrow_less)
  moreover from False have "map to_trans (seg_value s) = seg_value s"
    by (auto simp: wide_seg_def intro: map_idI)
  ultimately show ?thesis by (simp add: restore_asns_narrow)
next
  case True
  with s have "s \<in> set (filter wide_seg as4_paths)" by simp
  with one have "filter wide_seg as4_paths = [s]"
    by (cases "filter wide_seg as4_paths") auto
  then obtain us ws where split: "as4_paths = us @ s # ws"
    and us: "\<forall>u\<in>set us. \<not> wide_seg u" and ws: "filter wide_seg ws = []"
    by (auto simp: filter_eq_Cons_iff)
  from seq s True have "seg_type s = AS_SEQUENCE" by simp
  then have full: "as4_sequence_asns as4_paths =
      as4_sequence_asns us @ seg_value s @ as4_sequence_asns ws"
    by (simp add: split as4_sequence_asns_def)
  from clean s have vs: "\<forall>a\<in>set (seg_value s). a \<noteq> 0xffff \<and> a \<noteq> AS_TRANS" by simp
  show ?thesis unfolding full
    by (rule restore_asns_own_segment [OF as4_sequence_asns_narrow [OF us] vs])
qed

lemma collect_as4_Some:
  "\<forall>s\<in>set as4_paths. seg_is_4b s \<Longrightarrow> collect_as4 as4_paths = Some (as4_sequence_asns as4_paths)"
  by (induction as4_paths) (auto simp: as4_sequence_asns_def)

lemma restore_segs_Some:
  "\<forall>s\<in>set as_paths. \<not> seg_is_4b s \<Longrightarrow>
   restore_segs full has it as_paths =
     Some (map (\<lambda>s. \<lparr>seg_is_4b = True, seg_type = seg_type s,
                      seg_value = restore_asns full has it False (seg_value s)\<rparr>) as_paths)"
  by (induction as_paths) auto

lemma restore_segs_roundtrip:
  assumes clean: "\<forall>s\<in>set as4_paths. seg_is_4b s \<and> (\<forall>a\<in>set (seg_value s). a \<noteq> 0xffff \<and> a \<noteq> AS_TRANS)"
    and one: "length (filter wide_seg as4_paths) \<le> 1"
    and seq: "\<forall>s\<in>set as4_paths. wide_seg s \<longrightarrow> seg_type s = AS_SEQUENCE"
  shows "restore_segs (as4_sequence_asns as4_paths) (as4_sequence_asns as4_paths \<noteq> [])
           (iter_4b_steps (as4_sequence_asns as4_paths)) (map two_octet_seg as4_paths)
         = Some as4_paths"
proof -
  let ?full = "as4_sequence_asns as4_paths"
  have "\<forall>s\<in>set (map two_octet_seg as4_paths). \<not> seg_is_4b s"
    by (simp add: two_octet_seg_def)
  then have "restore_segs ?full (?full \<noteq> []) (iter_4b_steps ?full) (map two_octet_seg as4_paths) =
      Some (map (\<lambda>s. \<lparr>seg_is_4b = True, seg_type = seg_type s,
                       seg_value = restore_asns ?full (?full \<noteq> []) (iter_4b_steps ?full) False
                         (seg_value s)\<rparr>) (map two_octet_seg as4_paths))"
    by (rule restore_segs_Some)
  also have "map (\<lambda>s. \<lparr>seg_is_4b = True, seg_type = seg_type s,
                       seg_value = restore_asns ?full (?full \<noteq> []) (iter_4b_steps ?full) False
                         (seg_value s)\<rparr>) (map two_octet_seg as4_paths) = as4_paths"
  proof (rule map_idI [THEN trans [OF map_map], unfolded comp_def])
    fix s assume s: "s \<in> set as4_paths"
    from restore_asns_roundtrip [OF clean one seq s] clean s
    show "\<lparr>seg_is_4b = True, seg_type = seg_type (two_octet_seg s),
           seg_value = restore_asns ?full (?full \<noteq> []) (iter_4b_steps ?full) False
             (seg_value (two_octet_seg s))\<rparr> = s"
      by (simp add: two_octet_seg_def)
  qed
  finally show ?thesis .
qed

lemma downgrade_segs_Some:
  "\<forall>s\<in>set segs. seg_is_4b s \<and> (\<forall>a\<in>set (seg_value s). a \<noteq> 0xffff) \<Longrightarrow>
   downgrade_segs segs = Some (map two_octet_seg segs, segs)"
  by (induction segs) (auto simp: two_octet_seg_def downgrade_asn_to_trans)

subsection \<open>restoreAsPath\<close>

text \<open>
  What \<^verbatim>\<open>restoreAsPath\<close> computes. Let the first AS_PATH attribute be two-octet with
  two-octet segments only, and the first AS4_PATH attribute hold four-octet segments only.
  Then the call returns true. The cursor \<^verbatim>\<open>local_iter\<close> is set back to \<^verbatim>\<open>iter_4b\<close> at every
  AS_PATH segment, so every segment is rewritten from the same starting point: the first
  ASN above \<^verbatim>\<open>0xffff\<close> among the ASNs of the AS4_PATH's AS_SEQUENCE segments. Entries before
  the segment's first AS_TRANS are kept; from there on the cursor moves one step per entry,
  and an AS_TRANS met while the cursor is inside the list is replaced by the ASN under the
  cursor. The segment keeps its type and is marked four-octet, the AS_PATH's \<^verbatim>\<open>is_4b\<close> is
  set, and the first AS4_PATH attribute is removed (none is left when the type codes are
  pairwise distinct).
\<close>

lemma restoreAsPath_per_segment:
  assumes "getAttrib m AS_PATH = Inr path" and "body path = AsPath False as_paths"
    and "\<forall>s\<in>set as_paths. \<not> seg_is_4b s"
    and "getAttrib m AS4_PATH = Inr as4_path" and "body as4_path = As4Path as4_paths"
    and "\<forall>s\<in>set as4_paths. seg_is_4b s"
  shows "\<exists>m'. restoreAsPath m = Inr (True, m') \<and>
           getAttrib m' AS_PATH =
             Inr (path\<lparr>body := AsPath True
                    (map (restore_seg_closed (as4_sequence_asns as4_paths)) as_paths)\<rparr>) \<and>
           m' = m\<lparr>path_attribute :=
                   update_first AS_PATH
                     (\<lambda>a. a\<lparr>body := AsPath True
                        (map (restore_seg_closed (as4_sequence_asns as4_paths)) as_paths)\<rparr>)
                     (snd (dropAttrib_list (path_attribute m) AS4_PATH))\<rparr> \<and>
           map type_code (path_attribute m') = remove1 AS4_PATH (map type_code (path_attribute m)) \<and>
           (distinct (map type_code (path_attribute m)) \<longrightarrow> \<not> hasAttrib m' AS4_PATH)"
proof -
  let ?full = "as4_sequence_asns as4_paths"
  let ?segs = "map (restore_seg_closed ?full) as_paths"
  let ?f = "\<lambda>a. a\<lparr>body := AsPath True ?segs\<rparr>"
  let ?m' = "m\<lparr>path_attribute :=
               update_first AS_PATH ?f (snd (dropAttrib_list (path_attribute m) AS4_PATH))\<rparr>"
  from assms(1) have has2: "hasAttrib m AS_PATH"
    by (simp add: getAttrib_def hasAttrib_def getAttrib_list_has)
  from assms(4) have has4: "hasAttrib m AS4_PATH"
    by (simp add: getAttrib_def hasAttrib_def getAttrib_list_has)
  have segs: "restore_segs ?full (?full \<noteq> []) (iter_4b_steps ?full) as_paths = Some ?segs"
    using assms(3) by (simp add: restore_segs_Some restore_asns_closed_form restore_seg_closed_def)
  have run: "restoreAsPath m = Inr (True, ?m')"
    using has2 has4 assms(1,2,4,5) collect_as4_Some [OF assms(6)] segs
    by (simp add: restoreAsPath_def Let_def set_as_path_def dropAttrib_def)
  have tc: "type_code path = AS_PATH"
    using assms(1) by (simp add: getAttrib_def getAttrib_list_type)
  have get: "getAttrib ?m' AS_PATH = Inr (?f path)"
    using assms(1) tc
    by (simp add: getAttrib_def getAttrib_list_update_first getAttrib_list_drop_other)
  have codes: "map type_code (path_attribute ?m') = remove1 AS4_PATH (map type_code (path_attribute m))"
    by (simp add: type_codes_update_first type_codes_drop)
  have "distinct (map type_code (path_attribute m)) \<longrightarrow> \<not> hasAttrib ?m' AS4_PATH"
    unfolding hasAttrib_def hasAttrib_list_iff codes by simp
  with run get codes show ?thesis by blast
qed

text \<open>
  At a message with an AS_SEQUENCE and an AS_SET segment the AS_SET's AS_TRANS receives
  70000, the ASN that the AS_SEQUENCE's first AS_TRANS received already.
\<close>

lemma restoreAsPath_per_segment_example:
  "restoreAsPath (update_with
      [well_known ORIGIN (Origin 0),
       well_known AS_PATH (AsPath False
         [seg2b AS_SEQUENCE [100, AS_TRANS, 200, AS_TRANS], seg2b AS_SET [AS_TRANS, 300]]),
       well_known NEXT_HOP (Nexthop 1),
       as4_path_attr [seg4b AS_SEQUENCE [100, 70000, 200, 80000], seg4b AS_SET [90000, 300]]])
   = Inr (True, update_with
      [well_known ORIGIN (Origin 0),
       well_known AS_PATH (AsPath True
         [seg4b AS_SEQUENCE [100, 70000, 200, 80000], seg4b AS_SET [70000, 300]]),
       well_known NEXT_HOP (Nexthop 1)])"
proof -
  let ?s2 = "[seg2b AS_SEQUENCE [100, AS_TRANS, 200, AS_TRANS], seg2b AS_SET [AS_TRANS, 300]]"
  let ?s4 = "[seg4b AS_SEQUENCE [100, 70000, 200, 80000], seg4b AS_SET [90000, 300]]"
  let ?m = "update_with
      [well_known ORIGIN (Origin 0), well_known AS_PATH (AsPath False ?s2),
       well_known NEXT_HOP (Nexthop 1), as4_path_attr ?s4]"
  have h1: "getAttrib ?m AS_PATH = Inr (well_known AS_PATH (AsPath False ?s2))"
    by (simp add: getAttrib_def example_defs)
  have h2: "body (well_known AS_PATH (AsPath False ?s2)) = AsPath False ?s2"
    by (simp add: well_known_def)
  have h3: "\<forall>s\<in>set ?s2. \<not> seg_is_4b s" by (simp add: seg2b_def)
  have h4: "getAttrib ?m AS4_PATH = Inr (as4_path_attr ?s4)"
    by (simp add: getAttrib_def example_defs)
  have h5: "body (as4_path_attr ?s4) = As4Path ?s4" by (simp add: as4_path_attr_def)
  have h6: "\<forall>s\<in>set ?s4. seg_is_4b s" by (simp add: seg4b_def)
  have full: "as4_sequence_asns ?s4 = [100, 70000, 200, 80000]"
    by (simp add: as4_sequence_asns_def seg4b_def)
  have ev1: "restore_asns_closed [100, 70000, 200, 80000] [100, AS_TRANS, 200, AS_TRANS]
      = [100, 70000, 200, 80000]"
    by code_simp
  have ev2: "restore_asns_closed [100, 70000, 200, 80000] [AS_TRANS, 300] = [70000, 300]"
    by code_simp
  have segs: "map (restore_seg_closed (as4_sequence_asns ?s4)) ?s2
      = [seg4b AS_SEQUENCE [100, 70000, 200, 80000], seg4b AS_SET [70000, 300]]"
    unfolding full by (simp add: restore_seg_closed_def seg2b_def seg4b_def ev1 ev2)
  from restoreAsPath_per_segment [OF h1 h2 h3 h4 h5 h6]
  have "restoreAsPath ?m = Inr (True, ?m\<lparr>path_attribute :=
          update_first AS_PATH
            (\<lambda>a. a\<lparr>body := AsPath True (map (restore_seg_closed (as4_sequence_asns ?s4)) ?s2)\<rparr>)
            (snd (dropAttrib_list (path_attribute ?m) AS4_PATH))\<rparr>)"
    by blast
  then show ?thesis
    unfolding segs by (simp add: update_with_def well_known_def empty_update_def as4_path_attr_def
        BgpPathAttribAs4Path_new_def)
qed

text \<open>
  C3. \<^verbatim>\<open>restoreAsPath\<close> on a two-octet AS_PATH of two AS_SEQUENCE segments that hold one
  AS_TRANS each, with the AS4_PATH sequence 70000, 80000: it returns true, removes the
  AS4_PATH and marks the AS_PATH four-octet, but both AS_TRANS become 70000. The second one
  does not receive the next ASN 80000, which one pass across all segments gives it: the
  cursor into the list is set back at every segment. So the call does not undo
  \<^verbatim>\<open>downgradeAsPath\<close> either: the four-octet path (70000, 100) (80000, 200) is downgraded
  to (AS_TRANS, 100) (AS_TRANS, 200) with its AS4_PATH, and restored to
  (70000, 100) (70000, 200).
\<close>

theorem restoreAsPath_restarts_per_segment:
  "restoreAsPath (update_with
      [well_known AS_PATH (AsPath False [seg2b AS_SEQUENCE [AS_TRANS], seg2b AS_SEQUENCE [AS_TRANS]]),
       as4_path_attr [seg4b AS_SEQUENCE [70000, 80000]]])
   = Inr (True, update_with
      [well_known AS_PATH (AsPath True [seg4b AS_SEQUENCE [70000], seg4b AS_SEQUENCE [70000]])]) \<and>
   spec_restore_segs (as4_sequence_asns [seg4b AS_SEQUENCE [70000, 80000]])
      [seg2b AS_SEQUENCE [AS_TRANS], seg2b AS_SEQUENCE [AS_TRANS]]
   = [seg4b AS_SEQUENCE [70000], seg4b AS_SEQUENCE [80000]] \<and>
   downgradeAsPath (update_with
      [well_known ORIGIN (Origin 0),
       well_known AS_PATH (AsPath True [seg4b AS_SEQUENCE [70000, 100], seg4b AS_SEQUENCE [80000, 200]]),
       well_known NEXT_HOP (Nexthop 1)])
   = Inr (True, update_with
      [well_known ORIGIN (Origin 0),
       well_known AS_PATH (AsPath False [seg2b AS_SEQUENCE [AS_TRANS, 100], seg2b AS_SEQUENCE [AS_TRANS, 200]]),
       well_known NEXT_HOP (Nexthop 1),
       as4_path_attr [seg4b AS_SEQUENCE [70000, 100], seg4b AS_SEQUENCE [80000, 200]]]) \<and>
   restoreAsPath (update_with
      [well_known ORIGIN (Origin 0),
       well_known AS_PATH (AsPath False [seg2b AS_SEQUENCE [AS_TRANS, 100], seg2b AS_SEQUENCE [AS_TRANS, 200]]),
       well_known NEXT_HOP (Nexthop 1),
       as4_path_attr [seg4b AS_SEQUENCE [70000, 100], seg4b AS_SEQUENCE [80000, 200]]])
   = Inr (True, update_with
      [well_known ORIGIN (Origin 0),
       well_known AS_PATH (AsPath True [seg4b AS_SEQUENCE [70000, 100], seg4b AS_SEQUENCE [70000, 200]]),
       well_known NEXT_HOP (Nexthop 1)])"
proof (intro conjI)
  show "restoreAsPath (update_with
      [well_known AS_PATH (AsPath False [seg2b AS_SEQUENCE [AS_TRANS], seg2b AS_SEQUENCE [AS_TRANS]]),
       as4_path_attr [seg4b AS_SEQUENCE [70000, 80000]]])
   = Inr (True, update_with
      [well_known AS_PATH (AsPath True [seg4b AS_SEQUENCE [70000], seg4b AS_SEQUENCE [70000]])])"
    by (simp add: restoreAsPath_def hasAttrib_def getAttrib_def dropAttrib_def set_as_path_def
        asn16_def Let_def example_defs)
  show "spec_restore_segs (as4_sequence_asns [seg4b AS_SEQUENCE [70000, 80000]])
      [seg2b AS_SEQUENCE [AS_TRANS], seg2b AS_SEQUENCE [AS_TRANS]]
   = [seg4b AS_SEQUENCE [70000], seg4b AS_SEQUENCE [80000]]"
    by (simp add: as4_sequence_asns_def example_defs)
  show "downgradeAsPath (update_with
      [well_known ORIGIN (Origin 0),
       well_known AS_PATH (AsPath True [seg4b AS_SEQUENCE [70000, 100], seg4b AS_SEQUENCE [80000, 200]]),
       well_known NEXT_HOP (Nexthop 1)])
   = Inr (True, update_with
      [well_known ORIGIN (Origin 0),
       well_known AS_PATH (AsPath False [seg2b AS_SEQUENCE [AS_TRANS, 100], seg2b AS_SEQUENCE [AS_TRANS, 200]]),
       well_known NEXT_HOP (Nexthop 1),
       as4_path_attr [seg4b AS_SEQUENCE [70000, 100], seg4b AS_SEQUENCE [80000, 200]]])"
    by (simp add: downgradeAsPath_def hasAttrib_def getAttrib_def updateAttribute_def
        dropAttrib_def addAttrib_def set_as_path_def downgrade_asn_def Let_def example_defs)
  show "restoreAsPath (update_with
      [well_known ORIGIN (Origin 0),
       well_known AS_PATH (AsPath False [seg2b AS_SEQUENCE [AS_TRANS, 100], seg2b AS_SEQUENCE [AS_TRANS, 200]]),
       well_known NEXT_HOP (Nexthop 1),
       as4_path_attr [seg4b AS_SEQUENCE [70000, 100], seg4b AS_SEQUENCE [80000, 200]]])
   = Inr (True, update_with
      [well_known ORIGIN (Origin 0),
       well_known AS_PATH (AsPath True [seg4b AS_SEQUENCE [70000, 100], seg4b AS_SEQUENCE [70000, 200]]),
       well_known NEXT_HOP (Nexthop 1)])"
    by (simp add: restoreAsPath_def hasAttrib_def getAttrib_def dropAttrib_def set_as_path_def
        asn16_def Let_def example_defs)
qed

subsection \<open>downgradeAsPath\<close>

text \<open>
  C4. \<^verbatim>\<open>downgradeAsPath\<close> on the four-octet path (65535, 65000): the ASN 65535 is below
  \<open>2^16\<close> and is replaced by AS_TRANS all the same, since the test is
  \<^verbatim>\<open>asn >= 0xffff\<close>.
\<close>

theorem downgradeAsPath_replaces_65535:
  "downgradeAsPath (update_with
      [well_known ORIGIN (Origin 0),
       well_known AS_PATH (AsPath True [seg4b AS_SEQUENCE [65535, 65000]]),
       well_known NEXT_HOP (Nexthop 1)])
   = Inr (True, update_with
      [well_known ORIGIN (Origin 0),
       well_known AS_PATH (AsPath False [seg2b AS_SEQUENCE [AS_TRANS, 65000]]),
       well_known NEXT_HOP (Nexthop 1),
       as4_path_attr [seg4b AS_SEQUENCE [65535, 65000]]])"
  by (simp add: downgradeAsPath_def hasAttrib_def getAttrib_def updateAttribute_def dropAttrib_def
      addAttrib_def set_as_path_def downgrade_asn_def Let_def example_defs)

subsection \<open>Restore, then downgrade\<close>

text \<open>
  C5, as amended. Let the type codes of \<open>x\<close> be pairwise distinct, its last attribute be
  the AS4_PATH as \<^verbatim>\<open>downgradeAsPath\<close> builds it, with four-octet segments that hold
  neither 65535 nor AS_TRANS, at most one of them wide and that one an AS_SEQUENCE, and let
  its AS_PATH be the two-octet image of these segments. Then \<^verbatim>\<open>restoreAsPath\<close> followed
  by \<^verbatim>\<open>downgradeAsPath\<close> succeeds and gives \<open>x\<close> back.
\<close>

theorem restore_then_downgrade_amended:
  assumes attrs: "path_attribute x = P @ [BgpPathAttribAs4Path_new\<lparr>body := As4Path as4_paths\<rparr>]"
    and dist: "distinct (map type_code (path_attribute x))"
    and gp: "getAttrib_list P AS_PATH = Inr path"
    and bp: "body path = AsPath False (map two_octet_seg as4_paths)"
    and clean: "\<forall>s\<in>set as4_paths. seg_is_4b s \<and> (\<forall>a\<in>set (seg_value s). a \<noteq> 0xffff \<and> a \<noteq> AS_TRANS)"
    and one: "length (filter wide_seg as4_paths) \<le> 1"
    and seq: "\<forall>s\<in>set as4_paths. wide_seg s \<longrightarrow> seg_type s = AS_SEQUENCE"
  shows "restore_then_downgrade x = Inr (True, x)"
proof -
  let ?a4 = "BgpPathAttribAs4Path_new\<lparr>body := As4Path as4_paths\<rparr>"
  let ?full = "as4_sequence_asns as4_paths"
  let ?up4 = "\<lambda>a. a\<lparr>body := AsPath True as4_paths\<rparr>"
  let ?up2 = "\<lambda>a. a\<lparr>body := AsPath False (map two_octet_seg as4_paths)\<rparr>"
  let ?P1 = "update_first AS_PATH ?up4 P"
  let ?x1 = "x\<lparr>path_attribute := ?P1\<rparr>"
  have t4: "type_code ?a4 = AS4_PATH" by (simp add: BgpPathAttribAs4Path_new_def)
  have t4': "type_code BgpPathAttribAs4Path_new = AS4_PATH" by (simp add: BgpPathAttribAs4Path_new_def)
  from dist have no4: "\<not> hasAttrib_list P AS4_PATH"
    by (simp add: attrs hasAttrib_list_iff t4)
  from gp have has2: "hasAttrib_list P AS_PATH" by (rule getAttrib_list_has)
  from clean have all4: "\<forall>s\<in>set as4_paths. seg_is_4b s" by simp
  have restore: "restoreAsPath x = Inr (True, ?x1)"
    using has2 no4 gp bp collect_as4_Some [OF all4] restore_segs_roundtrip [OF clean one seq]
    by (simp add: restoreAsPath_def hasAttrib_def getAttrib_def attrs hasAttrib_list_append
        getAttrib_list_append getAttrib_list_append_last t4 Let_def dropAttrib_def
        dropAttrib_list_append_last set_as_path_def)
  have has2': "hasAttrib_list ?P1 AS_PATH"
    using has2 by (simp add: hasAttrib_list_update_first)
  have no4': "\<not> hasAttrib_list ?P1 AS4_PATH"
    using no4 by (simp add: hasAttrib_list_update_first)
  have tc: "type_code path = AS_PATH" using gp by (rule getAttrib_list_type)
  have get1: "getAttrib_list ?P1 AS_PATH = Inr (?up4 path)"
    using gp tc by (simp add: getAttrib_list_update_first)
  from clean have clean': "\<forall>s\<in>set as4_paths. seg_is_4b s \<and> (\<forall>a\<in>set (seg_value s). a \<noteq> 0xffff)"
    by simp
  have again: "update_first AS_PATH ?up2 (?P1 @ [?a4]) = P @ [?a4]"
  proof -
    have "update_first AS_PATH ?up2 (?P1 @ [?a4]) = update_first AS_PATH ?up2 ?P1 @ [?a4]"
      using has2' by (rule update_first_append)
    also have "update_first AS_PATH ?up2 ?P1 = update_first AS_PATH ?up2 P"
      by (simp add: update_first_twice)
    also have "\<dots> = P"
    proof (rule update_first_same [OF gp])
      show "path\<lparr>body := AsPath False (map two_octet_seg as4_paths)\<rparr> = path"
        using bp by simp
    qed
    finally show ?thesis .
  qed
  have downgrade: "downgradeAsPath ?x1 = Inr (True, x)"
    using has2' no4' get1 downgrade_segs_Some [OF clean'] again
    by (simp add: downgradeAsPath_def hasAttrib_def getAttrib_def Let_def updateAttribute_def
        dropAttrib_def dropAttrib_list_absent addAttrib_def t4' set_as_path_def attrs [symmetric])
  show ?thesis by (simp add: restore_then_downgrade_def restore downgrade)
qed

text \<open>The amended round trip at a message with an AS_SET and a wide AS_SEQUENCE.\<close>

theorem restore_then_downgrade_amended_witness:
  "restore_then_downgrade (update_with
      [well_known ORIGIN (Origin 0),
       well_known AS_PATH (AsPath False
         [seg2b AS_SET [300], seg2b AS_SEQUENCE [100, AS_TRANS, 200, AS_TRANS]]),
       well_known NEXT_HOP (Nexthop 1),
       as4_path_attr [seg4b AS_SET [300], seg4b AS_SEQUENCE [100, 70000, 200, 80000]]])
   = Inr (True, update_with
      [well_known ORIGIN (Origin 0),
       well_known AS_PATH (AsPath False
         [seg2b AS_SET [300], seg2b AS_SEQUENCE [100, AS_TRANS, 200, AS_TRANS]]),
       well_known NEXT_HOP (Nexthop 1),
       as4_path_attr [seg4b AS_SET [300], seg4b AS_SEQUENCE [100, 70000, 200, 80000]]])"
  using restore_then_downgrade_amended [of
      "update_with
        [well_known ORIGIN (Origin 0),
         well_known AS_PATH (AsPath False
           [seg2b AS_SET [300], seg2b AS_SEQUENCE [100, AS_TRANS, 200, AS_TRANS]]),
         well_known NEXT_HOP (Nexthop 1),
         as4_path_attr [seg4b AS_SET [300], seg4b AS_SEQUENCE [100, 70000, 200, 80000]]]"
      "[well_known ORIGIN (Origin 0),
         well_known AS_PATH (AsPath False
           [seg2b AS_SET [300], seg2b AS_SEQUENCE [100, AS_TRANS, 200, AS_TRANS]]),
         well_known NEXT_HOP (Nexthop 1)]"
      "[seg4b AS_SET [300], seg4b AS_SEQUENCE [100, 70000, 200, 80000]]"
      "well_known AS_PATH (AsPath False
           [seg2b AS_SET [300], seg2b AS_SEQUENCE [100, AS_TRANS, 200, AS_TRANS]])"]
  by (simp add: example_defs two_octet_seg_def wide_seg_def)

text \<open>
  C5 as stated fails: a message with a two-octet AS_PATH and no AS4_PATH comes back with
  an AS4_PATH attribute added, and a message with a four-octet AS_PATH comes back with a
  two-octet AS_PATH and an AS4_PATH.
\<close>

theorem restore_then_downgrade_counterexample:
  "restore_then_downgrade (update_with
      [well_known ORIGIN (Origin 0),
       well_known AS_PATH (AsPath False [seg2b AS_SEQUENCE [100]]),
       well_known NEXT_HOP (Nexthop 1)])
   = Inr (True, update_with
      [well_known ORIGIN (Origin 0),
       well_known AS_PATH (AsPath False [seg2b AS_SEQUENCE [100]]),
       well_known NEXT_HOP (Nexthop 1),
       as4_path_attr [seg4b AS_SEQUENCE [100]]]) \<and>
   update_with
      [well_known ORIGIN (Origin 0),
       well_known AS_PATH (AsPath False [seg2b AS_SEQUENCE [100]]),
       well_known NEXT_HOP (Nexthop 1),
       as4_path_attr [seg4b AS_SEQUENCE [100]]]
   \<noteq> update_with
      [well_known ORIGIN (Origin 0),
       well_known AS_PATH (AsPath False [seg2b AS_SEQUENCE [100]]),
       well_known NEXT_HOP (Nexthop 1)] \<and>
   restore_then_downgrade (update_with
      [well_known ORIGIN (Origin 0),
       well_known AS_PATH (AsPath True [seg4b AS_SEQUENCE [100]]),
       well_known NEXT_HOP (Nexthop 1)])
   = Inr (True, update_with
      [well_known ORIGIN (Origin 0),
       well_known AS_PATH (AsPath False [seg2b AS_SEQUENCE [100]]),
       well_known NEXT_HOP (Nexthop 1),
       as4_path_attr [seg4b AS_SEQUENCE [100]]]) \<and>
   update_with
      [well_known ORIGIN (Origin 0),
       well_known AS_PATH (AsPath False [seg2b AS_SEQUENCE [100]]),
       well_known NEXT_HOP (Nexthop 1),
       as4_path_attr [seg4b AS_SEQUENCE [100]]]
   \<noteq> update_with
      [well_known ORIGIN (Origin 0),
       well_known AS_PATH (AsPath True [seg4b AS_SEQUENCE [100]]),
       well_known NEXT_HOP (Nexthop 1)]"
  by (simp add: restore_then_downgrade_def restoreAsPath_def downgradeAsPath_def hasAttrib_def
      getAttrib_def updateAttribute_def dropAttrib_def addAttrib_def set_as_path_def
      downgrade_asn_def asn16_def Let_def example_defs)

section \<open>Properties of the ORIGIN parser\<close>

lemma parseHeader_result:
  "parseHeader a from n = Some (r, a') \<Longrightarrow> r = - 1 \<or> r = 2"
  by (auto simp: parseHeader_def attr_setError_def Let_def split: if_splits)

lemma Origin_parse_fails:
  "Origin_parse a from n = Some (r, a') \<Longrightarrow> r = - 1 \<and> err_subcode a' \<noteq> E_ORIGIN \<or> r = - 1 \<and> err_subcode a' = err_subcode a"
  by (auto simp: Origin_parse_def parseHeader_def attr_setError_def Let_def split: if_splits option.splits)

text \<open>
  C6. \<^verbatim>\<open>BgpPathAttribOrigin::parse\<close> on a new attribute object and a buffer that starts with
  the flags \<^verbatim>\<open>0x40\<close>, the type ORIGIN, the length 1 and any value byte \<open>v\<close> (so also one above
  2): the result is \<open>-1\<close>, and the error code and subcode are still 0. \<^verbatim>\<open>parseHeader\<close>
  returns 2 on success and the caller leaves when the result is not 3, so the test of the
  value is never reached and \<^verbatim>\<open>E_ORIGIN\<close> is never recorded.
\<close>

theorem Origin_parse_records_no_error:
  "Origin_parse (BgpPathAttrib_new a) (0x40 # ORIGIN # 1 # v # rest) (4 + length rest)
   = Some (- 1, a\<lparr>optional := False, transitive := True, partial := False, extended := False,
                   type_code := ORIGIN, value_len := 1,
                   err_code := 0, err_subcode := 0, err_buf := []\<rparr>)"
  by (simp add: Origin_parse_def parseHeader_def BgpPathAttrib_new_def Let_def)

section \<open>Properties of the UPDATE codec\<close>

lemma length_copy_bytes: "length (copy_bytes mem p bs) = length mem"
  by (induction bs arbitrary: mem p) auto

lemma copy_bytes_below: "i < p \<Longrightarrow> copy_bytes mem p bs ! i = mem ! i"
  by (induction bs arbitrary: mem p) auto

lemma write_attrs_below:
  "write_attrs aw buf_sz tot as mem p w = Ret (Inr (mem', w')) \<Longrightarrow>
   length mem' = length mem \<and> (\<forall>i<p. mem' ! i = mem ! i)"
proof (induction as arbitrary: mem w)
  case Nil
  then show ?case by simp
next
  case (Cons a as)
  let ?mem = "copy_bytes mem p (snd (aw a (buf_sz - w - tot)))"
  from Cons.prems have "write_attrs aw buf_sz tot as ?mem p (w + nat (fst (aw a (buf_sz - w - tot))))
      = Ret (Inr (mem', w'))"
    by (simp split: if_splits)
  from Cons.IH [OF this] show ?case by (simp add: length_copy_bytes copy_bytes_below)
qed

lemma write_attrs_room:
  "write_attrs aw buf_sz tot (a # as) mem p w = Ret x \<Longrightarrow> w + tot \<le> buf_sz"
  by (simp split: if_splits)

lemma write_returns:
  assumes "BgpUpdateMessage_write aw stack m to buf_sz = Ret (n, out)" and "0 \<le> n"
  shows "\<exists>mem1 p1 wl mem3 al p5 nl.
           write_routes stack buf_sz 0 (withdrawn_routes m) to 1 0 = Inr (mem1, p1, wl) \<and>
           write_attrs aw buf_sz (wl + 2) (path_attribute m) (put16_be mem1 0 (of_nat wl)) (p1 + 1) 0
             = Ret (Inr (mem3, al)) \<and>
           write_routes stack buf_sz (wl + 2 + al + 2) (nlri m) (put16_be mem3 p1 (of_nat al)) (p1 + 1) 0
             = Inr (out, p5, nl) \<and>
           n = int (wl + 2 + al + 2 + nl)"
proof (cases "buf_sz < 4")
  case True
  with assms show ?thesis by (simp add: BgpUpdateMessage_write_def)
next
  case False
  show ?thesis
  proof (cases "write_routes stack buf_sz 0 (withdrawn_routes m) to 1 0")
    case (Inl mem)
    with False assms show ?thesis by (simp add: BgpUpdateMessage_write_def)
  next
    case (Inr x)
    obtain mem1 p1 wl where x: "x = (mem1, p1, wl)" by (cases x)
    show ?thesis
    proof (cases "write_attrs aw buf_sz (wl + 2) (path_attribute m) (put16_be mem1 0 (of_nat wl)) (p1 + 1) 0")
      case Abort
      with False Inr x assms show ?thesis by (simp add: BgpUpdateMessage_write_def Let_def)
    next
      case (Ret y)
      show ?thesis
      proof (cases y)
        case (Inl mem)
        with False \<open>write_routes stack buf_sz 0 (withdrawn_routes m) to 1 0 = Inr x\<close> x Ret assms
        show ?thesis by (simp add: BgpUpdateMessage_write_def Let_def)
      next
        case (Inr z)
        note y = this
        obtain mem3 al where z: "z = (mem3, al)" by (cases z)
        show ?thesis
        proof (cases "write_routes stack buf_sz (wl + 2 + al + 2) (nlri m) (put16_be mem3 p1 (of_nat al)) (p1 + 1) 0")
          case (Inl mem)
          with False \<open>write_routes stack buf_sz 0 (withdrawn_routes m) to 1 0 = Inr x\<close> x Ret y z assms
          show ?thesis by (simp add: BgpUpdateMessage_write_def Let_def)
        next
          case (Inr v)
          obtain mem5 p5 nl where v: "v = (mem5, p5, nl)" by (cases v)
          from False \<open>write_routes stack buf_sz 0 (withdrawn_routes m) to 1 0 = Inr x\<close> x Ret
            y z Inr v assms
          have "out = mem5 \<and> n = int (wl + 2 + al + 2 + nl)"
            by (simp add: BgpUpdateMessage_write_def Let_def)
          with \<open>write_routes stack buf_sz 0 (withdrawn_routes m) to 1 0 = Inr x\<close> x Ret
            y z Inr v show ?thesis by simp
        qed
      qed
    qed
  qed
qed

lemma write_example_bytes:
  assumes len: "length to = buf_sz"
    and w: "BgpUpdateMessage_write aw stack example_update to buf_sz = Ret (n, out)"
    and n: "0 \<le> n"
  shows "take 4 out = [0, 4, 8, 8] \<and> 8 \<le> n \<and> 6 \<le> length out"
proof -
  let ?mem1 = "to[Suc 0 := 8, Suc (Suc 0) := 8, Suc (Suc (Suc 0)) := 8, Suc (Suc (Suc (Suc 0))) := 8]"
  let ?mem2 = "put16_be ?mem1 0 4"
  let ?as = "[well_known ORIGIN (Origin 0), well_known AS_PATH (AsPath False []),
              well_known NEXT_HOP (Nexthop 1)]"
  have wr: "withdrawn_routes example_update = [\<lparr>getLength = 8, getPrefix = 10\<rparr>, \<lparr>getLength = 8, getPrefix = 11\<rparr>]"
    and pa: "path_attribute example_update = ?as" and nl: "nlri example_update = []"
    by (simp_all add: example_update_def empty_update_def)
  from write_returns [OF w n] obtain mem1 p1 wl mem3 al p5 nl where
    r1: "write_routes stack buf_sz 0 (withdrawn_routes example_update) to 1 0 = Inr (mem1, p1, wl)"
    and r2: "write_attrs aw buf_sz (wl + 2) (path_attribute example_update)
               (put16_be mem1 0 (of_nat wl)) (p1 + 1) 0 = Ret (Inr (mem3, al))"
    and r3: "write_routes stack buf_sz (wl + 2 + al + 2) (nlri example_update)
               (put16_be mem3 p1 (of_nat al)) (p1 + 1) 0 = Inr (out, p5, nl)"
    and n': "n = int (wl + 2 + al + 2 + nl)"
    by blast
  from r1 have "mem1 = ?mem1 \<and> p1 = 5 \<and> wl = 4"
    unfolding wr by (auto simp: Let_def split: if_splits)
  then have m1: "mem1 = ?mem1" and p1: "p1 = 5" and wl: "wl = 4" by simp_all
  from r3 have out: "out = put16_be mem3 5 (of_nat al)" unfolding nl p1 by simp
  from r2 have attrs: "write_attrs aw buf_sz 6 ?as ?mem2 6 0 = Ret (Inr (mem3, al))"
    unfolding pa m1 p1 wl by simp
  from write_attrs_room [OF attrs] have room: "6 \<le> buf_sz" by simp
  from write_attrs_below [OF attrs] have same: "length mem3 = length ?mem2"
    and below: "\<forall>i<6. mem3 ! i = ?mem2 ! i" by simp_all
  from same len have l3: "length mem3 = buf_sz" by (simp add: put16_be_def)
  have lo: "length out = buf_sz" by (simp add: out put16_be_def l3)
  have m2: "?mem2 ! 0 = 0" "?mem2 ! Suc 0 = 4" "?mem2 ! Suc (Suc 0) = 8"
      "?mem2 ! Suc (Suc (Suc 0)) = 8"
    using len room by (simp_all add: put16_be_def)
  have keep: "out ! i = ?mem2 ! i" if "i < 5" for i
    using that below by (simp add: out put16_be_def)
  have o: "out ! 0 = 0" "out ! Suc 0 = 4" "out ! Suc (Suc 0) = 8" "out ! Suc (Suc (Suc 0)) = 8"
    using keep [of 0] keep [of "Suc 0"] keep [of "Suc (Suc 0)"] keep [of "Suc (Suc (Suc 0))"] m2
    by simp_all
  have "take 4 out = [out ! 0, out ! Suc 0, out ! Suc (Suc 0), out ! Suc (Suc (Suc 0))]"
    using room lo by (simp add: take_Suc_conv_app_nth numeral_eq_Suc)
  then have "take 4 out = [0, 4, 8, 8]" by (simp only: o)
  with n' wl lo room show ?thesis by simp
qed

lemma parse_routes_extends:
  "parse_routes from b p len routes = (ok, routes', b', p') \<Longrightarrow> \<exists>rest. routes' = routes @ rest"
proof (induction "from" b p len routes rule: parse_routes.induct)
  case (1 "from" buffer parsed len routes)
  show ?case
  proof (cases "parsed < len \<and> \<not> from ! buffer > 32 \<and>
      \<not> parsed + 1 + (unat (from ! buffer) + 7) div 8 > len")
    case True
    let ?rbl = "(unat (from ! buffer) + 7) div 8"
    let ?r = "\<lparr>getLength = from ! buffer, getPrefix = le32 (take ?rbl (drop (buffer + 1) from))\<rparr>"
    from True "1.prems" have "parse_routes from (buffer + 1 + ?rbl) (parsed + 1 + ?rbl) len (routes @ [?r])
        = (ok, routes', b', p')"
      by (subst (asm) parse_routes.simps) (simp add: Let_def)
    from "1.IH" [OF _ _ refl refl _ _ this] True obtain rest where "routes' = (routes @ [?r]) @ rest"
      by auto
    then show ?thesis by simp
  next
    case False
    with "1.prems" have "routes' = routes"
      by (subst (asm) parse_routes.simps) (auto simp: Let_def split: if_splits)
    then show ?thesis by simp
  qed
qed

lemma get16_be_example: "mem ! 0 = 0 \<Longrightarrow> mem ! 1 = 4 \<Longrightarrow> get16_be mem 0 = 4"
  by (simp add: get16_be_def)

lemma parse_routes_step:
  "parsed < len \<Longrightarrow> from ! buffer = rl \<Longrightarrow> \<not> rl > 32 \<Longrightarrow>
   parsed + 1 + (unat rl + 7) div 8 \<le> len \<Longrightarrow>
   parse_routes from buffer parsed len routes =
     parse_routes from (buffer + 1 + (unat rl + 7) div 8) (parsed + 1 + (unat rl + 7) div 8) len
       (routes @ [\<lparr>getLength = rl,
                   getPrefix = le32 (take ((unat rl + 7) div 8) (drop (buffer + 1) from))\<rparr>])"
  by (subst parse_routes.simps) (simp add: Let_def)

lemma parse_success_withdrawn:
  "BgpUpdateMessage_parse ap m from msg_sz = Some (Ret (r, m')) \<Longrightarrow> 0 \<le> r \<Longrightarrow>
   withdrawn_routes m' = fst (snd (parse_routes from 2 0 (unat (get16_be from 0)) (withdrawn_routes m)))"
  by (auto simp: BgpUpdateMessage_parse_def split: if_splits prod.splits option.splits)

lemma parse_example_first_route:
  assumes bytes: "take 4 from = [0, 4, 8, 8]" and sz: "8 \<le> msg_sz"
    and p: "BgpUpdateMessage_parse ap (BgpUpdateMessage_new b) from msg_sz = Some (Ret (r, m'))"
    and r: "0 \<le> r"
  shows "\<exists>rest. withdrawn_routes m' = \<lparr>getLength = 8, getPrefix = 8\<rparr> # rest"
proof -
  from bytes have "length (take 4 from) = 4" by simp
  then have l: "4 \<le> length from" by simp
  have nth: "from ! i = [0, 4, 8, 8 :: u8] ! i" if "i < 4" for i
    using that bytes by (metis nth_take)
  have b0: "from ! 0 = 0" using nth [of 0] by simp
  have b1: "from ! 1 = 4" using nth [of 1] by simp
  have b2: "from ! 2 = 8" using nth [of 2] by simp
  have b3: "from ! 3 = 8" using nth [of 3] by simp
  have len: "get16_be from 0 = 4" using b0 b1 by (simp add: get16_be_def)
  from l have "drop 3 from = from ! 3 # drop 4 from"
    by (simp add: Cons_nth_drop_Suc [symmetric])
  then have pfx: "le32 (take (Suc 0) (drop 3 from)) = 8" using b3 by simp
  have first: "parse_routes from 2 0 4 [] =
      parse_routes from 4 (Suc (Suc 0)) 4 [\<lparr>getLength = 8, getPrefix = 8\<rparr>]"
    using parse_routes_step [of 0 4 "from" 2 8 "[]"] b2 pfx by simp
  obtain ok routes buffer pw where
    loop: "parse_routes from 4 (Suc (Suc 0)) 4 [\<lparr>getLength = 8, getPrefix = 8\<rparr>] = (ok, routes, buffer, pw)"
    by (metis prod_cases4)
  from parse_routes_extends [OF loop] obtain rest where
    routes: "routes = [\<lparr>getLength = 8, getPrefix = 8\<rparr>] @ rest" by blast
  from parse_success_withdrawn [OF p r] have "withdrawn_routes m' = routes"
    by (simp add: len BgpUpdateMessage_new_def empty_update_def first loop)
  with routes show ?thesis by simp
qed

text \<open>
  C1. \<^verbatim>\<open>write\<close> on a message with the withdrawn routes 10.0.0.0/8 and 11.0.0.0/8 and the
  three mandatory attributes, with any serializers of the attributes and into any buffer:
  when it succeeds, the buffer starts with the bytes 0, 4, 8, 8, that is the length 4 and
  a route of length 8 whose prefix byte is the length again. Whatever the parsers of the
  attributes do, a successful \<^verbatim>\<open>parse\<close> of the buffer has 8.0.0.0/8 as its first withdrawn
  route, so its withdrawn routes are not those of the message.
\<close>

theorem write_then_parse_loses_prefix:
  assumes "length to = buf_sz"
    and "BgpUpdateMessage_write aw stack example_update to buf_sz = Ret (n, out)"
    and "0 \<le> n"
  shows "take 4 out = [0, 4, 8, 8] \<and>
         (\<forall>r m'. BgpUpdateMessage_parse ap (BgpUpdateMessage_new b) out (nat n) = Some (Ret (r, m')) \<and> 0 \<le> r \<longrightarrow>
            hd (withdrawn_routes m') = \<lparr>getLength = 8, getPrefix = 8\<rparr> \<and>
            withdrawn_routes m' \<noteq> withdrawn_routes example_update)"
proof -
  from write_example_bytes [OF assms] have bytes: "take 4 out = [0, 4, 8, 8]" and n: "8 \<le> n"
    by simp_all
  from n have sz: "8 \<le> nat n" by simp
  have "hd (withdrawn_routes m') = \<lparr>getLength = 8, getPrefix = 8\<rparr> \<and>
        withdrawn_routes m' \<noteq> withdrawn_routes example_update"
    if p: "BgpUpdateMessage_parse ap (BgpUpdateMessage_new b) out (nat n) = Some (Ret (r, m'))"
      and r: "0 \<le> r" for r m'
  proof -
    from parse_example_first_route [OF bytes sz p r] obtain rest where
      "withdrawn_routes m' = \<lparr>getLength = 8, getPrefix = 8\<rparr> # rest" by blast
    then show ?thesis by (simp add: example_update_def empty_update_def)
  qed
  with bytes show ?thesis by blast
qed

theorem write_then_parse_loses_prefix_witness:
  "BgpUpdateMessage_write (\<lambda>a room. (3, [0x40, type_code a, 0])) [] example_update
     [0, 0, 0, 0, 0, 0, 0, 0, 0, 0, 0, 0, 0, 0, 0, 0, 0, 0, 0, 0] 20
   = Ret (17, [0, 4, 8, 8, 8, 0, 9, 3, 0, 0, 0, 0, 0, 0, 0, 0, 0, 0, 0, 0]) \<and>
   take 4 [0, 4, 8, 8, 8, 0, 9, 3, 0, 0, 0, 0, 0, 0, 0, 0, 0, 0, 0, 0 :: u8] = [0, 4, 8, 8]"
proof -
  have len: "length [0, 0, 0, 0, 0, 0, 0, 0, 0, 0, 0, 0, 0, 0, 0, 0, 0, 0, 0, 0 :: u8] = 20"
    by simp
  have w: "BgpUpdateMessage_write (\<lambda>a room. (3, [0x40, type_code a, 0])) [] example_update
     [0, 0, 0, 0, 0, 0, 0, 0, 0, 0, 0, 0, 0, 0, 0, 0, 0, 0, 0, 0] 20
   = Ret (17, [0, 4, 8, 8, 8, 0, 9, 3, 0, 0, 0, 0, 0, 0, 0, 0, 0, 0, 0, 0])"
    by code_simp
  have n: "(0 :: int) \<le> 17" by simp
  from write_then_parse_loses_prefix [OF len w n]
  have "take 4 [0, 4, 8, 8, 8, 0, 9, 3, 0, 0, 0, 0, 0, 0, 0, 0, 0, 0, 0, 0 :: u8] = [0, 4, 8, 8]"
    by (rule conjunct1)
  with w show ?thesis by (rule conjI)
qed

section \<open>Properties of the IPv6 routing information base\<close>

subsection \<open>withdraw\<close>

lemma withdraw_scan_Cons:
  "withdraw_scan src r (entry # es) =
     (if same_key src r entry then (True, es)
      else (fst (withdraw_scan src r es), entry # snd (withdraw_scan src r es)))"
  by (simp add: same_key_def)

lemma withdraw_scan_absent:
  "\<forall>e\<in>set es. \<not> same_key src r e \<Longrightarrow> withdraw_scan src r es = (False, es)"
  by (induction es) (simp_all add: withdraw_scan_Cons del: withdraw_scan.simps(2))

lemma withdraw_scan_present:
  "\<exists>e\<in>set es. same_key src r e \<Longrightarrow>
   \<exists>xs e ys. es = xs @ e # ys \<and> same_key src r e \<and> (\<forall>x\<in>set xs. \<not> same_key src r x) \<and>
     withdraw_scan src r es = (True, xs @ ys)"
proof (induction es)
  case Nil
  then show ?case by simp
next
  case (Cons a es)
  show ?case
  proof (cases "same_key src r a")
    case True
    then have "a # es = [] @ a # es \<and> same_key src r a \<and> (\<forall>x\<in>set []. \<not> same_key src r x) \<and>
        withdraw_scan src r (a # es) = (True, [] @ es)"
      by (simp add: withdraw_scan_Cons del: withdraw_scan.simps(2))
    then show ?thesis by blast
  next
    case False
    with Cons.prems have "\<exists>e\<in>set es. same_key src r e" by auto
    from Cons.IH [OF this] obtain xs e ys where
      es: "es = xs @ e # ys" and e: "same_key src r e"
      and xs: "\<forall>x\<in>set xs. \<not> same_key src r x"
      and w: "withdraw_scan src r es = (True, xs @ ys)"
      by blast
    from False es e xs w have "a # es = (a # xs) @ e # ys \<and> same_key src r e \<and>
        (\<forall>x\<in>set (a # xs). \<not> same_key src r x) \<and>
        withdraw_scan src r (a # es) = (True, (a # xs) @ ys)"
      by (simp add: withdraw_scan_Cons del: withdraw_scan.simps(2))
    then show ?thesis by blast
  qed
qed

lemma withdraw_scan_unique:
  "distinct (map (\<lambda>e. (src_router_id e, route e)) es) \<Longrightarrow>
   snd (withdraw_scan src r es) = filter (\<lambda>e. \<not> same_key src r e) es"
proof (induction es)
  case Nil
  then show ?case by simp
next
  case (Cons a es)
  show ?case
  proof (cases "same_key src r a")
    case True
    with Cons.prems have "\<forall>e\<in>set es. \<not> same_key src r e"
      by (auto simp: image_iff same_key_def)
    then have "filter (\<lambda>e. \<not> same_key src r e) es = es"
      by (simp add: filter_id_conv)
    with True show ?thesis by (simp add: withdraw_scan_Cons del: withdraw_scan.simps(2))
  next
    case False
    with Cons show ?thesis by (simp add: withdraw_scan_Cons del: withdraw_scan.simps(2))
  qed
qed

text \<open>
  C9. When the table has an entry of the route and the source, \<^verbatim>\<open>withdraw\<close> returns true
  and erases the first such entry: all entries before and after it stay, in their order,
  and the counter is untouched. When entries are unique per source and route, the result
  is the table without the entries of that route and source. Without such an entry
  \<^verbatim>\<open>withdraw\<close> returns false and the table is unchanged.
\<close>

theorem withdraw_exact:
  "((\<exists>e\<in>set (rib t). route e = r \<and> src_router_id e = src) \<longrightarrow>
      (\<exists>xs e ys. rib t = xs @ e # ys \<and> route e = r \<and> src_router_id e = src \<and>
         (\<forall>x\<in>set xs. \<not> (route x = r \<and> src_router_id x = src)) \<and>
         withdraw t src r = (True, t\<lparr>rib := xs @ ys\<rparr>))) \<and>
   (\<not> (\<exists>e\<in>set (rib t). route e = r \<and> src_router_id e = src) \<longrightarrow> withdraw t src r = (False, t)) \<and>
   (distinct (map (\<lambda>e. (src_router_id e, route e)) (rib t)) \<longrightarrow>
      snd (withdraw t src r) =
        t\<lparr>rib := filter (\<lambda>e. \<not> (route e = r \<and> src_router_id e = src)) (rib t)\<rparr>)"
proof (intro conjI impI)
  assume "\<exists>e\<in>set (rib t). route e = r \<and> src_router_id e = src"
  then have "\<exists>e\<in>set (rib t). same_key src r e" by (simp add: same_key_def)
  from withdraw_scan_present [OF this] obtain xs e ys where
    "rib t = xs @ e # ys" "same_key src r e" "\<forall>x\<in>set xs. \<not> same_key src r x"
    "withdraw_scan src r (rib t) = (True, xs @ ys)"
    by blast
  then have "rib t = xs @ e # ys \<and> route e = r \<and> src_router_id e = src \<and>
         (\<forall>x\<in>set xs. \<not> (route x = r \<and> src_router_id x = src)) \<and>
         withdraw t src r = (True, t\<lparr>rib := xs @ ys\<rparr>)"
    unfolding same_key_def withdraw_def by simp
  then show "\<exists>xs e ys. rib t = xs @ e # ys \<and> route e = r \<and> src_router_id e = src \<and>
         (\<forall>x\<in>set xs. \<not> (route x = r \<and> src_router_id x = src)) \<and>
         withdraw t src r = (True, t\<lparr>rib := xs @ ys\<rparr>)"
    by blast
next
  assume "\<not> (\<exists>e\<in>set (rib t). route e = r \<and> src_router_id e = src)"
  then have "\<forall>e\<in>set (rib t). \<not> same_key src r e" by (simp add: same_key_def)
  from withdraw_scan_absent [OF this] show "withdraw t src r = (False, t)"
    by (simp add: withdraw_def)
next
  assume "distinct (map (\<lambda>e. (src_router_id e, route e)) (rib t))"
  from withdraw_scan_unique [OF this]
  show "snd (withdraw t src r) =
        t\<lparr>rib := filter (\<lambda>e. \<not> (route e = r \<and> src_router_id e = src)) (rib t)\<rparr>"
    unfolding same_key_def by (simp add: withdraw_def)
qed

subsection \<open>The counter\<close>

lemma insertPriv_update_id:
  "insertPriv gt t src r g l attrs w = Some (b, t1) \<Longrightarrow> update_id t1 = update_id t"
  by (auto simp: insertPriv_def Let_def split: option.splits)

lemma insert_peer_update_id:
  "insert_peer gt t src r g l attrs w = Some (b, t1) \<Longrightarrow>
   update_id t1 = update_id t \<or> update_id t1 = update_id t + 1"
  by (auto simp: insert_peer_def split: option.splits if_splits dest: insertPriv_update_id)

lemma insert_peer_loop_update_id:
  "insert_peer_loop gt src g l attrs w rs n t = Some (k, t1) \<Longrightarrow> update_id t1 = update_id t"
  by (induction rs arbitrary: n t) (auto split: option.splits dest: insertPriv_update_id)

lemma insert_peer_routes_update_id:
  "insert_peer_routes gt t src rs g l attrs w = Some (k, t1) \<Longrightarrow> update_id t1 = update_id t + 1"
  by (auto simp: insert_peer_routes_def split: option.splits dest: insert_peer_loop_update_id)

lemma insert_local_update_id:
  "insert_local t r g l w = Some (e, t1) \<Longrightarrow>
   update_id t1 = update_id t \<or> update_id t1 = update_id t + 1"
  by (auto simp: insert_local_def Let_def split: option.splits if_splits)

lemma insert_local_loop_update_id:
  "insert_local_loop g l w rs ins t = Some (ins', t1) \<Longrightarrow> update_id t1 = update_id t"
proof (induction rs arbitrary: ins t)
  case Nil
  then show ?case by simp
next
  case (Cons r rs)
  show ?case
  proof (cases "\<exists>entry\<in>set (rib t). src_router_id entry = 0 \<and> route entry = r")
    case True
    with Cons.prems have "insert_local_loop g l w rs ins t = Some (ins', t1)" by simp
    then show ?thesis by (rule Cons.IH)
  next
    case False
    with Cons.prems obtain e where
      "insert_local_loop g l w rs (ins @ [e\<lparr>entry_update_id := update_id t, weight := w\<rparr>])
         (t\<lparr>rib := rib t @ [e\<lparr>entry_update_id := update_id t, weight := w\<rparr>]\<rparr>) = Some (ins', t1)"
      by (auto simp: Let_def split: option.splits)
    from Cons.IH [OF this] show ?thesis by simp
  qed
qed

lemma insert_local_routes_update_id:
  "insert_local_routes t rs g l w = Some (ins, t1) \<Longrightarrow> update_id t1 = update_id t + 1"
  by (auto simp: insert_local_routes_def split: option.splits dest: insert_local_loop_update_id)

lemma withdraw_update_id: "update_id (snd (withdraw t src r)) = update_id t"
  by (simp add: withdraw_def)

lemma withdraw_routes_loop_update_id: "update_id (snd (withdraw_routes_loop src rs n t)) = update_id t"
  by (induction rs arbitrary: n t) (simp_all add: withdraw_update_id)

lemma rib_step_update_id:
  "rib_step gt op t = Some t1 \<Longrightarrow>
   (batch_insert op \<longrightarrow> update_id t1 = update_id t + 1) \<and>
   (update_id t1 = update_id t \<or> update_id t1 = update_id t + 1)"
proof (cases op)
  case (InsertLocal r g l w)
  assume "rib_step gt op t = Some t1"
  with InsertLocal show ?thesis by (auto dest: insert_local_update_id)
next
  case (InsertLocalBus r g l w)
  assume "rib_step gt op t = Some t1"
  with InsertLocalBus show ?thesis
    by (auto simp: insert_local_bus_def split: option.splits dest: insert_local_update_id)
next
  case (InsertLocalRoutes rs g l w)
  assume "rib_step gt op t = Some t1"
  with InsertLocalRoutes show ?thesis by (auto dest: insert_local_routes_update_id)
next
  case (InsertLocalRoutesBus rs g l w)
  assume "rib_step gt op t = Some t1"
  with InsertLocalRoutesBus show ?thesis
    by (auto simp: insert_local_routes_bus_def split: option.splits dest: insert_local_routes_update_id)
next
  case (InsertPeer src r g l attrs w)
  assume "rib_step gt op t = Some t1"
  with InsertPeer show ?thesis by (auto dest: insert_peer_update_id)
next
  case (InsertPeerRoutes src rs g l attrs w)
  assume "rib_step gt op t = Some t1"
  with InsertPeerRoutes show ?thesis by (auto dest: insert_peer_routes_update_id)
next
  case (Withdraw src r)
  assume "rib_step gt op t = Some t1"
  with Withdraw show ?thesis by (auto simp: withdraw_update_id)
next
  case (WithdrawRoutes src rs)
  assume "rib_step gt op t = Some t1"
  with WithdrawRoutes show ?thesis by (auto simp: withdraw_routes_def withdraw_routes_loop_update_id)
next
  case (Discard src)
  assume "rib_step gt op t = Some t1"
  with Discard show ?thesis by (auto simp: discard_def)
qed

lemma unat_Suc_le: "unat ((u :: u64) + 1) \<le> unat u + 1"
  by (simp add: unat_word_ariths)

lemma rib_run_update_id:
  "rib_run gt ops t = Some t' \<Longrightarrow> unat (update_id t') \<le> unat (update_id t) + length ops"
proof (induction ops arbitrary: t)
  case Nil
  then show ?case by simp
next
  case (Cons op ops)
  then obtain t1 where step: "rib_step gt op t = Some t1" and run: "rib_run gt ops t1 = Some t'"
    by (auto split: option.splits)
  from rib_step_update_id [OF step] have "unat (update_id t1) \<le> unat (update_id t) + 1"
    using unat_Suc_le [of "update_id t"] by auto
  with Cons.IH [OF run] show ?case by simp
qed

subsection \<open>Which operations return\<close>

text \<open>
  An insertion returns whenever the pointers it copies from are not null; the multi-route
  insertion from a peer copies its link-local argument as the global next hop.
\<close>

lemma insertPriv_returns: "\<exists>b t1. insertPriv gt t src r (Some g) l attrs w = Some (b, t1)"
  by (auto simp: insertPriv_def BgpRib6Entry_new_def Let_def split: option.splits)

lemma insert_peer_routes_returns:
  "\<exists>k t1. insert_peer_routes gt t src rs g (Some l) attrs w = Some (k, t1)"
proof -
  have "\<exists>k t1. insert_peer_loop gt src g (Some l) attrs w rs n t = Some (k, t1)" for n t
  proof (induction rs arbitrary: n t)
    case Nil
    then show ?case by simp
  next
    case (Cons r rs)
    obtain b t1 where "insertPriv gt t src r (Some l) g attrs w = Some (b, t1)"
      using insertPriv_returns by blast
    with Cons show ?case by simp
  qed
  then show ?thesis by (auto simp: insert_peer_routes_def split: option.splits)
qed

lemma insert_local_routes_returns:
  "\<exists>ins t1. insert_local_routes t rs (Some g) l w = Some (ins, t1)"
proof -
  have "\<exists>ins' t1. insert_local_loop (Some g) l w rs ins t = Some (ins', t1)" for ins t
    by (induction rs arbitrary: ins t) (simp_all add: BgpRib6Entry_new_def Let_def)
  then show ?thesis by (auto simp: insert_local_routes_def split: option.splits)
qed

lemma insert_local_returns: "\<exists>e t1. insert_local t r (Some g) l w = Some (e, t1)"
  by (auto simp: insert_local_def BgpRib6Entry_new_def Let_def split: option.splits)

lemma insert_peer_routes_empty:
  "insert_peer_routes gt t src [] g l attrs w = Some (0, t\<lparr>update_id := update_id t + 1\<rparr>)"
  by (simp add: insert_peer_routes_def)

lemma insert_peer_routes_null:
  "insert_peer_routes gt t src (r # rs) g None attrs w = None"
  by (simp add: insert_peer_routes_def insertPriv_def BgpRib6Entry_new_def)

lemma rib_step_returns:
  assumes "nexthop_global_given op" and "\<not> peer_routes_without_linklocal op"
  shows "\<exists>t'. rib_step gt op t = Some t'"
proof (cases op)
  case (InsertLocal r g l w)
  with assms(1) obtain g' where "g = Some g'" by auto
  with InsertLocal insert_local_returns [of t r g' l w] show ?thesis by auto
next
  case (InsertLocalBus r g l w)
  with assms(1) obtain g' where "g = Some g'" by auto
  with InsertLocalBus insert_local_returns [of t r g' l w] show ?thesis
    by (auto simp: insert_local_bus_def split: option.splits)
next
  case (InsertLocalRoutes rs g l w)
  with assms(1) obtain g' where "g = Some g'" by auto
  with InsertLocalRoutes insert_local_routes_returns [of t rs g' l w] show ?thesis by auto
next
  case (InsertLocalRoutesBus rs g l w)
  with assms(1) obtain g' where "g = Some g'" by auto
  with InsertLocalRoutesBus insert_local_routes_returns [of t rs g' l w] show ?thesis
    by (auto simp: insert_local_routes_bus_def)
next
  case (InsertPeer src r g l attrs w)
  with assms(1) obtain g' where "g = Some g'" by auto
  with InsertPeer insertPriv_returns [of gt t src r g' l attrs w] show ?thesis
    by (auto simp: insert_peer_def)
next
  case (InsertPeerRoutes src rs g l attrs w)
  show ?thesis
  proof (cases l)
    case None
    with InsertPeerRoutes assms(2) have "rs = []" by simp
    with InsertPeerRoutes show ?thesis by (simp add: insert_peer_routes_empty)
  next
    case (Some l')
    with InsertPeerRoutes insert_peer_routes_returns [of gt t src rs g l' attrs w] show ?thesis
      by auto
  qed
qed simp_all

lemma rib_step_null:
  assumes "peer_routes_without_linklocal op"
  shows "rib_step gt op t = None"
proof (cases op)
  case (InsertPeerRoutes src rs g l attrs w)
  with assms obtain r rs' where "l = None" "rs = r # rs'" by (cases rs) auto
  with InsertPeerRoutes show ?thesis by (simp add: insert_peer_routes_null)
qed (use assms in simp_all)

text \<open>
  C8. In every table reached from a new one by fewer than \<open>2^64 - 1\<close> operations, an
  operation that is given its global next hop returns and does not decrease \<^verbatim>\<open>update_id\<close>,
  and an insertion that takes a vector of routes increases it by exactly one, whatever the
  number of routes it inserts; the local insertions that publish to the event bus are among
  them. The exception is the multi-route insertion from a peer with a route to insert and a
  null link-local next hop, which the interface allows: it copies from the null pointer and
  never arrives at \<^verbatim>\<open>update_id++\<close>.
\<close>

theorem update_id_monotone:
  assumes run: "rib_run gt ops BgpRib6_new = Some t"
    and len: "length ops < 2 ^ 64 - 1"
    and given: "nexthop_global_given op"
  shows "if peer_routes_without_linklocal op then rib_step gt op t = None
         else (\<exists>t'. rib_step gt op t = Some t' \<and> update_id t \<le> update_id t' \<and>
                 (batch_insert op \<longrightarrow>
                    update_id t' = update_id t + 1 \<and> unat (update_id t') = unat (update_id t) + 1))"
proof (cases "peer_routes_without_linklocal op")
  case True
  then show ?thesis by (simp add: rib_step_null)
next
  case False
  from rib_step_returns [OF given False] obtain t' where step: "rib_step gt op t = Some t'" ..
  from rib_run_update_id [OF run] len have small: "unat (update_id t) + 1 < 2 ^ 64"
    by (simp add: BgpRib6_new_def)
  then have suc: "unat (update_id t + 1) = unat (update_id t) + 1"
    by (simp add: unat_word_ariths)
  then have le: "update_id t \<le> update_id t + 1" by (simp add: word_le_nat_alt)
  from rib_step_update_id [OF step] le suc
  have "update_id t \<le> update_id t' \<and>
        (batch_insert op \<longrightarrow>
           update_id t' = update_id t + 1 \<and> unat (update_id t') = unat (update_id t) + 1)"
    by auto
  then have "\<exists>t'. rib_step gt op t = Some t' \<and> update_id t \<le> update_id t' \<and>
        (batch_insert op \<longrightarrow>
           update_id t' = update_id t + 1 \<and> unat (update_id t') = unat (update_id t) + 1)"
    using step by blast
  with False show ?thesis by (simp only: if_False)
qed

text \<open>
  The multi-route insertion from a peer without a link-local next hop into a new table, and
  a local multi-route insertion with the event bus that inserts one of its two routes into a
  table reached by one operation.
\<close>

theorem update_id_monotone_witness:
  "rib_step (\<lambda>a b. False)
     (InsertPeerRoutes 1 [example_prefix 1] (Some (replicate 16 0x20)) None [] 0) BgpRib6_new
   = None \<and>
   rib_run (\<lambda>a b. False)
     [InsertPeerRoutes 1 [example_prefix 1, example_prefix 2, example_prefix 1]
        (Some (replicate 16 0x20)) (Some (replicate 16 0xfe)) [] 0] BgpRib6_new
   = Some \<lparr>rib = [(example_entry 1 1)\<lparr>nexthop_global := replicate 16 0xfe, nexthop_linklocal := replicate 16 0x20\<rparr>,
                  (example_entry 1 2)\<lparr>nexthop_global := replicate 16 0xfe, nexthop_linklocal := replicate 16 0x20\<rparr>],
           update_id = 1\<rparr> \<and>
   rib_step (\<lambda>a b. False)
     (InsertLocalRoutesBus [example_prefix 3, example_prefix 3] (Some (replicate 16 0x20)) None 0)
     \<lparr>rib = [(example_entry 1 1)\<lparr>nexthop_global := replicate 16 0xfe, nexthop_linklocal := replicate 16 0x20\<rparr>,
            (example_entry 1 2)\<lparr>nexthop_global := replicate 16 0xfe, nexthop_linklocal := replicate 16 0x20\<rparr>],
      update_id = 1\<rparr>
   = Some \<lparr>rib = [(example_entry 1 1)\<lparr>nexthop_global := replicate 16 0xfe, nexthop_linklocal := replicate 16 0x20\<rparr>,
                  (example_entry 1 2)\<lparr>nexthop_global := replicate 16 0xfe, nexthop_linklocal := replicate 16 0x20\<rparr>,
                  (example_entry 0 3)\<lparr>nexthop_linklocal := replicate 16 0, attribs := local_attribs, entry_update_id := 1\<rparr>],
           update_id = 2\<rparr> \<and>
   (1 :: u64) \<le> 2 \<and> unat (2 :: u64) = unat (1 :: u64) + 1"
proof -
  let ?gt = "\<lambda>(a :: BgpRib6Entry) (b :: BgpRib6Entry). False"
  let ?bad = "InsertPeerRoutes 1 [example_prefix 1] (Some (replicate 16 0x20)) None [] 0"
  let ?ops = "[InsertPeerRoutes 1 [example_prefix 1, example_prefix 2, example_prefix 1]
        (Some (replicate 16 0x20)) (Some (replicate 16 0xfe)) [] 0]"
  let ?t = "\<lparr>rib = [(example_entry 1 1)\<lparr>nexthop_global := replicate 16 0xfe, nexthop_linklocal := replicate 16 0x20\<rparr>,
                  (example_entry 1 2)\<lparr>nexthop_global := replicate 16 0xfe, nexthop_linklocal := replicate 16 0x20\<rparr>],
           update_id = 1\<rparr>"
  let ?t' = "\<lparr>rib = [(example_entry 1 1)\<lparr>nexthop_global := replicate 16 0xfe, nexthop_linklocal := replicate 16 0x20\<rparr>,
                  (example_entry 1 2)\<lparr>nexthop_global := replicate 16 0xfe, nexthop_linklocal := replicate 16 0x20\<rparr>,
                  (example_entry 0 3)\<lparr>nexthop_linklocal := replicate 16 0, attribs := local_attribs, entry_update_id := 1\<rparr>],
           update_id = 2\<rparr>"
  let ?op = "InsertLocalRoutesBus [example_prefix 3, example_prefix 3] (Some (replicate 16 0x20)) None 0"
  have run0: "rib_run ?gt [] BgpRib6_new = Some BgpRib6_new" by simp
  have len0: "length ([] :: rib_op list) < 2 ^ 64 - 1" by simp
  have given0: "nexthop_global_given ?bad" by simp
  from update_id_monotone [OF run0 len0 given0]
  have bad: "rib_step ?gt ?bad BgpRib6_new = None" by simp
  have run: "rib_run ?gt ?ops BgpRib6_new = Some ?t"
    by (simp add: insert_peer_routes_def insertPriv_def BgpRib6Entry_new_def BgpRib6_new_def
        example_entry_def example_prefix_def Let_def)
  have len: "length ?ops < 2 ^ 64 - 1" by simp
  have given: "nexthop_global_given ?op" by simp
  have step: "rib_step ?gt ?op ?t = Some ?t'"
    by (simp add: insert_local_routes_bus_def insert_local_routes_def BgpRib6Entry_new_def
        example_entry_def example_prefix_def Let_def)
  from update_id_monotone [OF run len given]
  have "\<exists>t'. rib_step ?gt ?op ?t = Some t' \<and> update_id ?t \<le> update_id t' \<and>
          (batch_insert ?op \<longrightarrow>
             update_id t' = update_id ?t + 1 \<and> unat (update_id t') = unat (update_id ?t) + 1)"
    by simp
  then have "update_id ?t \<le> update_id ?t' \<and> unat (update_id ?t') = unat (update_id ?t) + 1"
    unfolding step by simp
  then have le: "(1 :: u64) \<le> 2" and eq: "unat (2 :: u64) = unat (1 :: u64) + 1" by simp_all
  show ?thesis by (intro conjI bad run step le eq)
qed

text \<open>
  C7. The multi-route insertion from a peer into a new table: the entry's global next hop
  is the link-local argument and its link-local next hop is the global argument, while
  the single-route insertion stores each argument in its own field. With a null
  link-local pointer the multi-route insertion copies from the null pointer.
\<close>

theorem insert_peer_routes_swaps_nexthops:
  "insert_peer_routes gt BgpRib6_new src [r] (Some g) (Some l) attrs w
   = Some (1, \<lparr>rib = [\<lparr>route = r, src_router_id = src, nexthop_global = take 16 l,
                        nexthop_linklocal = take 16 g, attribs = attrs,
                        entry_update_id = 0, weight = w\<rparr>],
                update_id = 1\<rparr>) \<and>
   insert_peer gt BgpRib6_new src r (Some g) (Some l) attrs w
   = Some (True, \<lparr>rib = [\<lparr>route = r, src_router_id = src, nexthop_global = take 16 g,
                           nexthop_linklocal = take 16 l, attribs = attrs,
                           entry_update_id = 0, weight = w\<rparr>],
                   update_id = 1\<rparr>) \<and>
   insert_peer_routes gt BgpRib6_new src [r] (Some g) None attrs w = None"
  by (simp add: insert_peer_routes_def insert_peer_def insertPriv_def BgpRib6Entry_new_def
      BgpRib6_new_def Let_def)

theorem withdraw_exact_witness:
  "withdraw \<lparr>rib = [example_entry 1 1, example_entry 2 1, example_entry 1 2], update_id = 3\<rparr>
     2 (example_prefix 1)
   = (True, \<lparr>rib = [example_entry 1 1, example_entry 1 2], update_id = 3\<rparr>) \<and>
   withdraw \<lparr>rib = [example_entry 1 1, example_entry 2 1, example_entry 1 2], update_id = 3\<rparr>
     2 (example_prefix 2)
   = (False, \<lparr>rib = [example_entry 1 1, example_entry 2 1, example_entry 1 2], update_id = 3\<rparr>)"
  using withdraw_exact [of "\<lparr>rib = [example_entry 1 1, example_entry 2 1, example_entry 1 2], update_id = 3\<rparr>"
      "example_prefix 1" 2]
    withdraw_exact [of "\<lparr>rib = [example_entry 1 1, example_entry 2 1, example_entry 1 2], update_id = 3\<rparr>"
      "example_prefix 2" 2]
  by (simp add: example_entry_def example_prefix_def withdraw_def)

end
